theory Spec2Isabelle
  imports Complex_Main "HOL-Library.Char_ord" "HOL-Library.List_Lexorder" "HOL-Library.AList"
begin

section \<open>JavaScript values and strings\<close>

text \<open>
  The page \<^verbatim>\<open>src/pages/main.ts\<close> works on JSON numbers, \<^verbatim>\<open>null\<close> and (for reads
  out of range and array holes) \<^verbatim>\<open>undefined\<close>. A number is an IEEE 754 double; it is
  modelled by the real number it denotes.
\<close>

datatype jsval = Num real | Null | Undefined

datatype js_error = TypeError

text \<open>\<^verbatim>\<open>xs[i]\<close>: a read past the end yields \<^verbatim>\<open>undefined\<close>.\<close>

definition js_get :: "jsval list \<Rightarrow> nat \<Rightarrow> jsval" where
  "js_get xs i = (if i < length xs then xs ! i else Undefined)"

text \<open>
  \<^verbatim>\<open>xs[i] = v\<close>: inside the array the slot is replaced; at or past the end the array
  grows to length \<open>i + 1\<close>, the new intermediate slots reading as \<^verbatim>\<open>undefined\<close>.
  A negative index or \<^verbatim>\<open>NaN\<close> (here \<open>None\<close>) sets a plain property and leaves the
  elements alone.
\<close>

definition js_set :: "jsval list \<Rightarrow> int option \<Rightarrow> jsval \<Rightarrow> jsval list" where
  "js_set xs i v =
     (case i of
        None \<Rightarrow> xs
      | Some k \<Rightarrow>
          if k < 0 then xs
          else if nat k < length xs then xs[nat k := v]
          else xs @ replicate (nat k - length xs) Undefined @ [v])"

definition digit :: "nat \<Rightarrow> char" where
  "digit n = ''0123456789'' ! n"

text \<open>\<^verbatim>\<open>Number.prototype.toString\<close> on a non-negative integer.\<close>

fun toString :: "nat \<Rightarrow> string" where
  "toString n = (if n < 10 then [digit n] else toString (n div 10) @ [digit (n mod 10)])"

declare toString.simps [simp del]

text \<open>\<^verbatim>\<open>s.padStart(n, "0")\<close>.\<close>

definition padStart :: "nat \<Rightarrow> string \<Rightarrow> string" where
  "padStart n s = replicate (n - length s) (CHR ''0'') @ s"

section \<open>Dates\<close>

text \<open>
  A JavaScript \<^verbatim>\<open>Date\<close> in local time, as far as \<^verbatim>\<open>dateString\<close> reads it:
  \<^verbatim>\<open>getFullYear()\<close>, \<^verbatim>\<open>getMonth()\<close> (0-based) and \<^verbatim>\<open>getDate()\<close> (1-based day of month).
\<close>

record js_date =
  getFullYear :: nat
  getMonth :: nat
  getDate :: nat

text \<open>
  \<^verbatim>\<open>const dateString = (date: Date) =>
    date.getFullYear() + "-" + (date.getMonth() + 1).toString().padStart(2, "0")
      + "-" + (date.getDate() + 1).toString().padStart(2, "0");\<close>
\<close>

definition dateString :: "js_date \<Rightarrow> string" where
  "dateString date =
     toString (getFullYear date) @ ''-'' @ padStart 2 (toString (getMonth date + 1)) @ ''-''
       @ padStart 2 (toString (getDate date + 1))"

text \<open>
  The fields \<^verbatim>\<open>startDate = new Date(new Date().getFullYear() - 2, 0, 1)\<close> and
  \<^verbatim>\<open>endDate = new Date()\<close> of \<^verbatim>\<open>MainPage\<close>, given the current date \<open>now\<close> (in a
  year from 2 on, so that the subtraction on \<open>nat\<close> is the one on integers).
\<close>

definition startDate :: "js_date \<Rightarrow> js_date" where
  "startDate now = \<lparr>getFullYear = getFullYear now - 2, getMonth = 0, getDate = 1\<rparr>"

definition endDate :: "js_date \<Rightarrow> js_date" where
  "endDate now = now"

subsection \<open>The calendar of the moment library\<close>

text \<open>
  The moment library is not part of the repository. A moment is modelled by its local
  calendar date in the proleptic Gregorian calendar, which is what the library's
  \<^verbatim>\<open>format\<close>, \<^verbatim>\<open>dayOfYear\<close> and \<^verbatim>\<open>add(i, "days")\<close> work on. The month is 0-based,
  the day of the month 1-based.
\<close>

record moment =
  mYear :: nat
  mMonth :: nat
  mDate :: nat

definition isLeapYear :: "nat \<Rightarrow> bool" where
  "isLeapYear y = ((y mod 4 = 0 \<and> y mod 100 \<noteq> 0) \<or> y mod 400 = 0)"

definition daysInMonth :: "nat \<Rightarrow> nat \<Rightarrow> nat" where
  "daysInMonth y m =
     (if m = 1 then (if isLeapYear y then 29 else 28)
      else if m = 3 \<or> m = 5 \<or> m = 8 \<or> m = 10 then 30 else 31)"

definition valid_moment :: "moment \<Rightarrow> bool" where
  "valid_moment d = (mMonth d < 12 \<and> 1 \<le> mDate d \<and> mDate d \<le> daysInMonth (mYear d) (mMonth d))"

text \<open>\<^verbatim>\<open>dayOfYear()\<close>: 1 for January 1, up to 365 or, in a leap year, 366.\<close>

definition dayOfYear :: "moment \<Rightarrow> nat" where
  "dayOfYear d = sum_list (map (daysInMonth (mYear d)) [0..<mMonth d]) + mDate d"

definition next_day :: "moment \<Rightarrow> moment" where
  "next_day d =
     (if mDate d < daysInMonth (mYear d) (mMonth d) then d\<lparr>mDate := mDate d + 1\<rparr>
      else if mMonth d < 11 then d\<lparr>mMonth := mMonth d + 1, mDate := 1\<rparr>
      else \<lparr>mYear = mYear d + 1, mMonth = 0, mDate = 1\<rparr>)"

text \<open>\<^verbatim>\<open>m.add(i, "days")\<close> for \<open>i \<ge> 0\<close>.\<close>

primrec add_days :: "nat \<Rightarrow> moment \<Rightarrow> moment" where
  "add_days 0 d = d"
| "add_days (Suc i) d = add_days i (next_day d)"

definition monthsShort :: "string list" where
  "monthsShort = [''Jan'', ''Feb'', ''Mar'', ''Apr'', ''May'', ''Jun'',
                  ''Jul'', ''Aug'', ''Sep'', ''Oct'', ''Nov'', ''Dec'']"

text \<open>\<^verbatim>\<open>format("YYYY")\<close>: the year zero-filled to four digits.\<close>

definition format_YYYY :: "moment \<Rightarrow> string" where
  "format_YYYY d = padStart 4 (toString (mYear d))"

text \<open>\<^verbatim>\<open>format("MMM D")\<close>: short month name, a space, the day of the month.\<close>

definition format_MMM_D :: "moment \<Rightarrow> string" where
  "format_MMM_D d = monthsShort ! mMonth d @ '' '' @ toString (mDate d)"

text \<open>
  The x-axis labels of the stacked view:
  \<^verbatim>\<open>Array.from({ length: 365 }, (_, i) => moment("0000-01-01").add(i, "days").format("MMM D"))\<close>.
  \<^verbatim>\<open>moment("0000-01-01")\<close> is January 1 of year 0.
\<close>

definition stacked_labels :: "string list" where
  "stacked_labels =
     map (\<lambda>i. format_MMM_D (add_days i \<lparr>mYear = 0, mMonth = 0, mDate = 1\<rparr>)) [0..<365]"

section \<open>Double-precision arithmetic\<close>

text \<open>
  A JavaScript number is an IEEE 754 double. A finite double is modelled by the real number
  it denotes, and an arithmetic operation of the program by the exact operation followed by
  \<open>fl\<close>, rounding to 53 significant bits, to the nearest, ties to the even significand.
  The exponent range is not modelled: the opacities computed below and their intermediate
  values are zero or lie between \<open>2 powi (-60)\<close> and 1.
\<close>

text \<open>The number of binary digits of a natural number.\<close>

fun bits :: "nat \<Rightarrow> nat" where
  "bits n = (if n = 0 then 0 else Suc (bits (n div 2)))"

declare bits.simps [simp del]

text \<open>The binary exponent of a positive real: \<open>2 powi ilog2 x \<le> x < 2 powi (ilog2 x + 1)\<close>.\<close>

definition ilog2 :: "real \<Rightarrow> int" where
  "ilog2 x =
     (if 1 \<le> x then int (bits (nat \<lfloor>x\<rfloor>)) - 1
      else - int (bits (nat (\<lceil>1 / x\<rceil> - 1))))"

text \<open>Rounding to the nearest integer, a tie going to the even one.\<close>

definition rne :: "real \<Rightarrow> int" where
  "rne m =
     (let f = \<lfloor>m\<rfloor>; r = m - of_int f
      in if r < 1 / 2 then f
         else if 1 / 2 < r then f + 1
         else if even f then f else f + 1)"

definition fl_pos :: "real \<Rightarrow> real" where
  "fl_pos x = of_int (rne (x / 2 powi (ilog2 x - 52))) * 2 powi (ilog2 x - 52)"

definition fl :: "real \<Rightarrow> real" where
  "fl x = (if x = 0 then 0 else if 0 < x then fl_pos x else - fl_pos (- x))"

text \<open>
  \<^verbatim>\<open>moment(date)\<close> parses a timestamp string in the browser's time zone; the parser is a
  parameter \<open>mom\<close> of the model, \<open>None\<close> standing for an invalid moment. An invalid
  moment formats as \<^verbatim>\<open>Invalid date\<close> and its day of the year is \<^verbatim>\<open>NaN\<close>.
\<close>

definition moment_format_YYYY :: "moment option \<Rightarrow> string" where
  "moment_format_YYYY m = (case m of None \<Rightarrow> ''Invalid date'' | Some d \<Rightarrow> format_YYYY d)"

definition moment_dayOfYear :: "moment option \<Rightarrow> int option" where
  "moment_dayOfYear m = (case m of None \<Rightarrow> None | Some d \<Rightarrow> Some (int (dayOfYear d)))"

text \<open>
  A concrete parser, used in the examples: the calendar date written in the first ten characters
  \<^verbatim>\<open>YYYY-MM-DD\<close> of an ISO timestamp, which is what \<^verbatim>\<open>moment\<close> yields for the
  service's timestamps (\<^verbatim>\<open>2020-12-31T00:00+00:00\<close>) in a browser whose zone is UTC.
\<close>

definition parse_nat :: "string \<Rightarrow> nat" where
  "parse_nat s = foldl (\<lambda>n c. 10 * n + (of_char c - 48)) 0 s"

definition moment_utc :: "string \<Rightarrow> moment option" where
  "moment_utc s =
     (let d = \<lparr>mYear = parse_nat (take 4 s), mMonth = parse_nat (take 2 (drop 5 s)) - 1,
                mDate = parse_nat (take 2 (drop 8 s))\<rparr>
      in if 10 \<le> length s \<and> 1 \<le> parse_nat (take 2 (drop 5 s)) \<and> valid_moment d
         then Some d else None)"

section \<open>The response of the timeseries service\<close>

text \<open>
  \<^verbatim>\<open>SpartacusResult\<close>: the timestamps and, per feature, the data arrays of the
  parameters \<^verbatim>\<open>TN\<close> and \<^verbatim>\<open>TX\<close> (\<^verbatim>\<open>properties.parameters.TN.data\<close>).
\<close>

record feature =
  TN :: "jsval list"
  TX :: "jsval list"

record SpartacusResult =
  timestamps :: "string list"
  features :: "feature list"

record GeocodingResult =
  lat :: string
  lon :: string
  display_name :: string

section \<open>Year stacking\<close>

record bucket =
  minTemps :: "jsval list"
  maxTemps :: "jsval list"

text \<open>
  \<^verbatim>\<open>yearlyData\<close>: an object keyed by the year string, kept as an association list. The
  only enumeration of its keys, \<^verbatim>\<open>Object.keys(yearlyData).sort()\<close>, sorts them.
\<close>

type_synonym yearlyData = "(string \<times> bucket) list"

text \<open>\<^verbatim>\<open>xs.forEach(f)\<close> where the callback may throw: the first exception ends the loop.\<close>

fun forEach :: "('a \<Rightarrow> 's \<Rightarrow> js_error + 's) \<Rightarrow> 'a list \<Rightarrow> 's \<Rightarrow> js_error + 's" where
  "forEach f [] s = Inr s"
| "forEach f (x # xs) s = (case f x s of Inl e \<Rightarrow> Inl e | Inr s' \<Rightarrow> forEach f xs s')"

text \<open>
  First loop of the stacked branch (lines 239-244):
  \<^verbatim>\<open>const year = moment(date).format("YYYY");
  if (!yearlyData[year])
    yearlyData[year] = { minTemps: Array(365).fill(null), maxTemps: Array(365).fill(null) };\<close>
\<close>

definition init_year :: "(string \<Rightarrow> moment option) \<Rightarrow> string \<Rightarrow> yearlyData \<Rightarrow> yearlyData" where
  "init_year mom date yearlyData =
     (let year = moment_format_YYYY (mom date)
      in if map_of yearlyData year = None
         then yearlyData @ [(year, \<lparr>minTemps = replicate 365 Null, maxTemps = replicate 365 Null\<rparr>)]
         else yearlyData)"

text \<open>
  Second loop (lines 247-252):
  \<^verbatim>\<open>const year = moment(date).format("YYYY");
  const dayOfYear = moment(date).dayOfYear() - 1;
  yearlyData[year].minTemps[dayOfYear] = minTemp[index];
  yearlyData[year].maxTemps[dayOfYear] = maxTemp[index];\<close>
  Reading \<^verbatim>\<open>.minTemps\<close> of a missing entry would throw a \<^verbatim>\<open>TypeError\<close>.
\<close>

definition populate_year ::
  "(string \<Rightarrow> moment option) \<Rightarrow> jsval list \<Rightarrow> jsval list \<Rightarrow> nat \<times> string \<Rightarrow> yearlyData
     \<Rightarrow> js_error + yearlyData" where
  "populate_year mom minTemp maxTemp = (\<lambda>(index, date) yearlyData.
     (let year = moment_format_YYYY (mom date);
          dayOfYear = map_option (\<lambda>n. n - 1) (moment_dayOfYear (mom date))
      in case map_of yearlyData year of
           None \<Rightarrow> Inl TypeError
         | Some b \<Rightarrow>
             Inr (AList.update year
                    \<lparr>minTemps = js_set (minTemps b) dayOfYear (js_get minTemp index),
                     maxTemps = js_set (maxTemps b) dayOfYear (js_get maxTemp index)\<rparr>
                    yearlyData)))"

definition yearly_data ::
  "(string \<Rightarrow> moment option) \<Rightarrow> string list \<Rightarrow> jsval list \<Rightarrow> jsval list \<Rightarrow> js_error + yearlyData" where
  "yearly_data mom dates minTemp maxTemp =
     forEach (populate_year mom minTemp maxTemp) (enumerate 0 dates) (fold (init_year mom) dates [])"

subsection \<open>Datasets\<close>

text \<open>The colour \<^verbatim>\<open>rgba(r, g, b, a)\<close> of a line; its last component is the opacity.\<close>

record rgba =
  red :: nat
  green :: nat
  blue :: nat
  alpha :: real

record dataset =
  label :: string
  data :: "jsval list"
  borderColor :: rgba
  borderWidth :: "nat option"
  fill :: bool
  pointRadius :: "nat option"

text \<open>
  Both \<^verbatim>\<open>years.forEach\<close> loops (lines 264-294) begin with the same four lines, \<open>n\<close>
  being \<^verbatim>\<open>years.length\<close>:
  \<^verbatim>\<open>const baseOpacity = 1 / years.length;
  let opacity = (1 - baseOpacity * (years.length - index)) * 0.6 + 0.4;
  if (index == years.length - 1) opacity = 1;
  const isFirstOrLast = index == 0 || index == years.length - 1;\<close>
  The division, the product, the difference from 1, the product with 0.6 and the sum with
  0.4 are each rounded, and the literals 0.6 and 0.4 are the doubles nearest to them.
  \<^verbatim>\<open>years.length - index\<close> is a difference of small integers, which is exact. With no
  year at all the loops do not run and \<^verbatim>\<open>baseOpacity\<close> (then \<^verbatim>\<open>Infinity\<close>) is not used.
\<close>

definition opacity :: "nat \<Rightarrow> nat \<Rightarrow> real" where
  "opacity n index =
     (let baseOpacity = fl (1 / real n);
          opacity = fl (fl (fl (1 - fl (baseOpacity * (real n - real index))) * fl 0.6) + fl 0.4)
      in if int index = int n - 1 then 1 else opacity)"

definition isFirstOrLast :: "nat \<Rightarrow> nat \<Rightarrow> bool" where
  "isFirstOrLast n index = (index = 0 \<or> int index = int n - 1)"

text \<open>The object pushed by the first loop (lines 270-276), \<open>b\<close> being \<^verbatim>\<open>yearlyData[year]\<close>.\<close>

definition min_dataset :: "bucket \<Rightarrow> nat \<Rightarrow> nat \<Rightarrow> string \<Rightarrow> dataset" where
  "min_dataset b n index year =
     \<lparr>label = ''Min Temp '' @ year,
      data = minTemps b,
      borderColor =
        (if int index = int n - 1 then \<lparr>red = 54, green = 100, blue = 235, alpha = 1\<rparr>
         else \<lparr>red = 54, green = 162, blue = 235, alpha = opacity n index\<rparr>),
      borderWidth = Some (if int index = int n - 1 then 2 else 1),
      fill = False,
      pointRadius = None\<rparr>"

text \<open>The object pushed by the second loop (lines 286-292).\<close>

definition max_dataset :: "bucket \<Rightarrow> nat \<Rightarrow> nat \<Rightarrow> string \<Rightarrow> dataset" where
  "max_dataset b n index year =
     \<lparr>label = ''Max Temp '' @ year,
      data = maxTemps b,
      borderColor =
        (if int index = int n - 1 then \<lparr>red = 255, green = 50, blue = 50, alpha = 1\<rparr>
         else \<lparr>red = 255, green = 99, blue = 132, alpha = opacity n index\<rparr>),
      borderWidth = Some (if int index = int n - 1 then 2 else 1),
      fill = False,
      pointRadius = None\<rparr>"

text \<open>
  The callback of the first loop: skip a year that is neither first nor last when the
  first/last checkbox is checked, else push the minimum dataset when its checkbox is
  checked. Reading \<^verbatim>\<open>.minTemps\<close> of a missing entry would throw.
\<close>

definition min_year ::
  "bool \<Rightarrow> bool \<Rightarrow> yearlyData \<Rightarrow> nat \<Rightarrow> nat \<times> string \<Rightarrow> dataset list \<Rightarrow> js_error + dataset list" where
  "min_year firstLastYear_checked minTemp_checked yearlyData n = (\<lambda>(index, year) datasets.
     if firstLastYear_checked \<and> \<not> isFirstOrLast n index then Inr datasets
     else if minTemp_checked then
       (case map_of yearlyData year of
          None \<Rightarrow> Inl TypeError
        | Some b \<Rightarrow> Inr (datasets @ [min_dataset b n index year]))
     else Inr datasets)"

text \<open>The callback of the second loop.\<close>

definition max_year ::
  "bool \<Rightarrow> bool \<Rightarrow> yearlyData \<Rightarrow> nat \<Rightarrow> nat \<times> string \<Rightarrow> dataset list \<Rightarrow> js_error + dataset list" where
  "max_year firstLastYear_checked maxTemp_checked yearlyData n = (\<lambda>(index, year) datasets.
     if firstLastYear_checked \<and> \<not> isFirstOrLast n index then Inr datasets
     else if maxTemp_checked then
       (case map_of yearlyData year of
          None \<Rightarrow> Inl TypeError
        | Some b \<Rightarrow> Inr (datasets @ [max_dataset b n index year]))
     else Inr datasets)"

text \<open>
  Lines 254-294: \<^verbatim>\<open>years = Object.keys(yearlyData).sort()\<close> (string order), then the
  minimum loop and the maximum loop pushing onto the same \<^verbatim>\<open>datasets\<close> array.
\<close>

definition year_datasets :: "bool \<Rightarrow> bool \<Rightarrow> bool \<Rightarrow> yearlyData \<Rightarrow> js_error + dataset list" where
  "year_datasets firstLastYear_checked minTemp_checked maxTemp_checked yearlyData =
     (let years = sort (map fst yearlyData)
      in case forEach (min_year firstLastYear_checked minTemp_checked yearlyData (length years))
                (enumerate 0 years) [] of
           Inl e \<Rightarrow> Inl e
         | Inr datasets \<Rightarrow>
             forEach (max_year firstLastYear_checked maxTemp_checked yearlyData (length years))
               (enumerate 0 years) datasets)"

definition stacked_datasets ::
  "(string \<Rightarrow> moment option) \<Rightarrow> bool \<Rightarrow> bool \<Rightarrow> bool \<Rightarrow> string list \<Rightarrow> jsval list \<Rightarrow> jsval list
     \<Rightarrow> js_error + dataset list" where
  "stacked_datasets mom firstLastYear_checked minTemp_checked maxTemp_checked dates minTemp maxTemp =
     (case yearly_data mom dates minTemp maxTemp of
        Inl e \<Rightarrow> Inl e
      | Inr yearlyData \<Rightarrow> year_datasets firstLastYear_checked minTemp_checked maxTemp_checked yearlyData)"

section \<open>The chart bound to a canvas\<close>

text \<open>
  What \<^verbatim>\<open>createChart\<close> writes of a chart: its labels, its datasets and
  \<^verbatim>\<open>options.scales.x.time.displayFormats.day\<close>. \<open>chart_id\<close> numbers the objects built
  by \<^verbatim>\<open>new Chart\<close> and \<open>updates\<close> counts the calls of \<^verbatim>\<open>chart.update()\<close>. A canvas
  carries the property \<^verbatim>\<open>__chart\<close> and, for the proofs, the number of charts constructed
  on it so far.
\<close>

record chart =
  chart_id :: nat
  labels :: "string list"
  datasets :: "dataset list"
  displayFormats_day :: string
  updates :: nat

record canvas =
  chart_prop :: "chart option"
  constructed :: nat

text \<open>
  Lines 55-58: \<^verbatim>\<open>dataset.pointRadius = 0; if (!dataset.borderWidth) dataset.borderWidth = 1;\<close>
\<close>

definition normalise :: "dataset \<Rightarrow> dataset" where
  "normalise d =
     d\<lparr>pointRadius := Some 0,
       borderWidth := (if borderWidth d = None \<or> borderWidth d = Some 0 then Some 1 else borderWidth d)\<rparr>"

definition createChart :: "canvas \<Rightarrow> string list \<Rightarrow> dataset list \<Rightarrow> string \<Rightarrow> canvas" where
  "createChart cv lbls dsets dateFormat =
     (let dsets = map normalise dsets
      in case chart_prop cv of
           Some ch \<Rightarrow>
             cv\<lparr>chart_prop :=
                  Some (ch\<lparr>labels := lbls, datasets := dsets, displayFormats_day := dateFormat,
                           updates := updates ch + 1\<rparr>)\<rparr>
         | None \<Rightarrow>
             cv\<lparr>chart_prop :=
                  Some \<lparr>chart_id = constructed cv, labels = lbls, datasets = dsets,
                        displayFormats_day = dateFormat, updates = 0\<rparr>,
                constructed := constructed cv + 1\<rparr>)"

section \<open>The page\<close>

text \<open>A request sent with \<^verbatim>\<open>fetch\<close>, by its parameters before URL encoding.\<close>

datatype request =
  TimeseriesRequest string string real real
| SearchRequest string

text \<open>
  What a \<^verbatim>\<open>fetch\<close> followed by \<^verbatim>\<open>response.json()\<close> gives: a rejected promise, or a
  response with its \<^verbatim>\<open>ok\<close> flag and, when the body parses, the parsed body.
\<close>

datatype 'a response = NetworkError | HttpResponse bool "'a option"

record page =
  isLoading :: bool
  error :: "string option"
  searchResults :: "GeocodingResult list"
  address :: string
  startDateInput :: string
  endDateInput :: string
  stackYears :: bool
  firstLastYear :: bool
  minTemp :: bool
  maxTemp :: bool
  lat :: real
  lng :: real
  data :: "SpartacusResult option"
  chart :: canvas
  requests :: "request list"

text \<open>\<^verbatim>\<open>${this.error ? renderError(this.error) : ""}\<close>: the banner shows for a non-empty text.\<close>

definition error_shown :: "page \<Rightarrow> bool" where
  "error_shown p = (case error p of None \<Rightarrow> False | Some e \<Rightarrow> e \<noteq> [])"

definition whoopsies :: string where
  "whoopsies = ''Whoopsies, da hat etwas nicht funktioniert''"

text \<open>
  \<^verbatim>\<open>renderCharts\<close> (lines 222-307). It is an \<^verbatim>\<open>async\<close> function without an
  \<^verbatim>\<open>await\<close>: it runs to its end when called, and an exception becomes a rejected
  promise (\<open>Inl\<close>), the page being as it was.
\<close>

definition renderCharts :: "(string \<Rightarrow> moment option) \<Rightarrow> page \<Rightarrow> js_error + page" where
  "renderCharts mom p =
     (case data p of
        None \<Rightarrow> Inr p
      | Some d \<Rightarrow>
          (case features d of
             [] \<Rightarrow> Inl TypeError
           | f # _ \<Rightarrow>
               (let dates = timestamps d; minTempData = TN f; maxTempData = TX f
                in if stackYears p then
                     (case stacked_datasets mom (firstLastYear p) (minTemp p) (maxTemp p)
                             dates minTempData maxTempData of
                        Inl e \<Rightarrow> Inl e
                      | Inr dsets \<Rightarrow>
                          Inr (p\<lparr>chart := createChart (chart p) stacked_labels dsets ''DD-MM''\<rparr>))
                   else
                     (let dsets =
                        (if minTemp p
                         then [\<lparr>label = ''Min. Temp'', data = minTempData,
                                borderColor = \<lparr>red = 54, green = 162, blue = 235, alpha = 1\<rparr>,
                                borderWidth = None, fill = False, pointRadius = None\<rparr>]
                         else []) @
                        (if maxTemp p
                         then [\<lparr>label = ''Max. Temp'', data = maxTempData,
                                borderColor = \<lparr>red = 255, green = 99, blue = 132, alpha = 1\<rparr>,
                                borderWidth = None, fill = False, pointRadius = None\<rparr>]
                         else [])
                      in Inr (p\<lparr>chart := createChart (chart p) dates dsets ''YYYY-MM-DD''\<rparr>)))))"

text \<open>
  \<^verbatim>\<open>loadData\<close> (lines 191-213), the outcome \<open>resp\<close> of the fetch given. The
  \<^verbatim>\<open>catch\<close> block sets the message; the \<^verbatim>\<open>finally\<close> block clears the loading flag.
  \<^verbatim>\<open>this.renderCharts()\<close> is not awaited, so its rejection is not caught here.
\<close>

definition loadData :: "(string \<Rightarrow> moment option) \<Rightarrow> SpartacusResult response \<Rightarrow> page \<Rightarrow> page" where
  "loadData mom resp p0 =
     (let p = p0\<lparr>error := Some ''''\<rparr>
      in if length (startDateInput p) = 0 \<or> length (endDateInput p) = 0 then p
         else
           (let p = p\<lparr>isLoading := True\<rparr>;
                startDate = startDateInput p @ ''T00:00:00.000Z'';
                endDate = endDateInput p @ ''T00:00:00.000Z'';
                p = p\<lparr>requests := requests p @ [TimeseriesRequest startDate endDate (lat p) (lng p)]\<rparr>;
                p = (case resp of
                       NetworkError \<Rightarrow> p\<lparr>error := Some whoopsies\<rparr>
                     | HttpResponse ok body \<Rightarrow>
                         if \<not> ok then p\<lparr>error := Some whoopsies\<rparr>
                         else (case body of
                                 None \<Rightarrow> p\<lparr>error := Some whoopsies\<rparr>
                               | Some d \<Rightarrow>
                                   (let p = p\<lparr>data := Some d\<rparr>
                                    in case renderCharts mom p of Inl e \<Rightarrow> p | Inr p' \<Rightarrow> p')))
            in p\<lparr>isLoading := False\<rparr>))"

text \<open>\<^verbatim>\<open>s.trim()\<close> on ASCII text.\<close>

definition isSpace :: "char \<Rightarrow> bool" where
  "isSpace c = (c = CHR '' '' \<or> c = CHR 0x09 \<or> c = CHR 0x0A \<or> c = CHR 0x0B \<or> c = CHR 0x0C \<or> c = CHR 0x0D)"

definition trim :: "string \<Rightarrow> string" where
  "trim s = rev (dropWhile isSpace (rev (dropWhile isSpace s)))"

text \<open>\<^verbatim>\<open>search\<close> (lines 309-321), the outcome \<open>resp\<close> of the fetch given.\<close>

definition search :: "GeocodingResult list response \<Rightarrow> page \<Rightarrow> page" where
  "search resp p0 =
     (let p = p0\<lparr>requests := requests p0 @ [SearchRequest (trim (address p0))]\<rparr>;
          p = (case resp of
                 NetworkError \<Rightarrow> p\<lparr>error := Some whoopsies\<rparr>
               | HttpResponse ok body \<Rightarrow>
                   if \<not> ok then p\<lparr>error := Some whoopsies\<rparr>
                   else (case body of
                           None \<Rightarrow> p\<lparr>error := Some whoopsies\<rparr>
                         | Some results \<Rightarrow> p\<lparr>searchResults := take 3 results\<rparr>))
      in p\<lparr>isLoading := False\<rparr>)"

text \<open>
  The page as \<^verbatim>\<open>MainPage\<close> initialises it, the two date inputs and the address given, and
  with the four checkboxes checked as in the markup.
\<close>

definition initial_page :: "string \<Rightarrow> string \<Rightarrow> string \<Rightarrow> page" where
  "initial_page start_value end_value address_value =
     \<lparr>isLoading = False, error = None, searchResults = [], address = address_value,
      startDateInput = start_value, endDateInput = end_value,
      stackYears = True, firstLastYear = True, minTemp = True, maxTemp = True,
      lat = 47.65439560092274, lng = 13.502197265625002, data = None,
      chart = \<lparr>chart_prop = None, constructed = 0\<rparr>, requests = []\<rparr>"

text \<open>A sequence of calls of \<^verbatim>\<open>createChart\<close> on one canvas, each with its arguments.\<close>

definition createChart_calls ::
  "(string list \<times> dataset list \<times> string) list \<Rightarrow> canvas \<Rightarrow> canvas" where
  "createChart_calls calls cv = fold (\<lambda>(lbls, dsets, dateFormat) c. createChart c lbls dsets dateFormat) calls cv"

text \<open>A small \<^verbatim>\<open>yearlyData\<close> of three years, used as an example.\<close>

definition three_years :: yearlyData where
  "three_years =
     [(''2021'', \<lparr>minTemps = [Num 1], maxTemps = [Num 9]\<rparr>),
      (''2019'', \<lparr>minTemps = [Null], maxTemps = [Num 7]\<rparr>),
      (''2020'', \<lparr>minTemps = [Num 2], maxTemps = [Num 8]\<rparr>)]"

text \<open>
  The invariant of the second loop: both arrays of a bucket have the same length, 365 or
  366, and no slot is \<^verbatim>\<open>undefined\<close>.
\<close>

definition bucket_ok :: "bucket \<Rightarrow> bool" where
  "bucket_ok b =
     ((length (minTemps b) = 365 \<or> length (minTemps b) = 366)
      \<and> length (maxTemps b) = length (minTemps b)
      \<and> Undefined \<notin> set (minTemps b) \<and> Undefined \<notin> set (maxTemps b))"

text \<open>A \<^verbatim>\<open>yearlyData\<close> of the forty-nine years 1975 to 2023, used as an example.\<close>

definition fortynine_years :: yearlyData where
  "fortynine_years =
     map (\<lambda>year. (year, \<lparr>minTemps = [Num 1], maxTemps = [Num 9]\<rparr>))
       [''1975'', ''1976'', ''1977'', ''1978'', ''1979'', ''1980'', ''1981'',
        ''1982'', ''1983'', ''1984'', ''1985'', ''1986'', ''1987'', ''1988'',
        ''1989'', ''1990'', ''1991'', ''1992'', ''1993'', ''1994'', ''1995'',
        ''1996'', ''1997'', ''1998'', ''1999'', ''2000'', ''2001'', ''2002'',
        ''2003'', ''2004'', ''2005'', ''2006'', ''2007'', ''2008'', ''2009'',
        ''2010'', ''2011'', ''2012'', ''2013'', ''2014'', ''2015'', ''2016'',
        ''2017'', ''2018'', ''2019'', ''2020'', ''2021'', ''2022'', ''2023'']"

section \<open>Default date range\<close>

text \<open>
  C8. The start-date input is initialised with \<^verbatim>\<open>dateString(this.startDate)\<close> and the
  end-date input with \<^verbatim>\<open>dateString(this.endDate)\<close>. \<^verbatim>\<open>dateString\<close> adds one to the
  day of the month, so on 31 October 2023 the start input shows 2 January 2021 instead of
  1 January 2021, and the end input shows the text 2023-10-32 instead of 2023-10-31.
\<close>

theorem dateString_default_off_by_one:
  "dateString (startDate \<lparr>getFullYear = 2023, getMonth = 9, getDate = 31\<rparr>) = ''2021-01-02''
   \<and> dateString (endDate \<lparr>getFullYear = 2023, getMonth = 9, getDate = 31\<rparr>) = ''2023-10-32''"
  by (simp add: dateString_def startDate_def endDate_def toString.simps padStart_def digit_def)

section \<open>Labels of the stacked view\<close>

lemma add_days_59: "add_days 59 \<lparr>mYear = 0, mMonth = 0, mDate = 1\<rparr> = \<lparr>mYear = 0, mMonth = 1, mDate = 29\<rparr>"
  by code_simp

lemma add_days_364: "add_days 364 \<lparr>mYear = 0, mMonth = 0, mDate = 1\<rparr> = \<lparr>mYear = 0, mMonth = 11, mDate = 30\<rparr>"
  by code_simp

lemma nth_stacked_labels:
  "i < 365 \<Longrightarrow> stacked_labels ! i = format_MMM_D (add_days i \<lparr>mYear = 0, mMonth = 0, mDate = 1\<rparr>)"
  unfolding stacked_labels_def by (subst nth_map) simp_all

lemma toString_29_30: "toString 29 = ''29''" "toString 30 = ''30''"
  by (simp_all add: toString.simps digit_def)

lemma format_MMM_D_examples:
  "format_MMM_D \<lparr>mYear = 0, mMonth = 1, mDate = 29\<rparr> = ''Feb 29''"
  "format_MMM_D \<lparr>mYear = 0, mMonth = 11, mDate = 30\<rparr> = ''Dec 30''"
  by (simp_all add: format_MMM_D_def toString_29_30 monthsShort_def)

text \<open>
  C7. The stacked view always has 365 labels, whatever the data. They are the first 365
  days of year 0, the year of \<^verbatim>\<open>moment("0000-01-01")\<close>, which is a leap year in the
  library's calendar: the label at index 59 is Feb 29 and the last label is Dec 30, so the
  sequence is not the days of a non-leap year (the code's own comment says it is).
\<close>

theorem stacked_labels_leap_reference_year:
  "length stacked_labels = 365 \<and> stacked_labels ! 59 = ''Feb 29''
   \<and> stacked_labels ! 364 = ''Dec 30'' \<and> isLeapYear 0"
proof -
  have len: "length stacked_labels = 365"
    by (simp add: stacked_labels_def)
  have feb: "stacked_labels ! 59 = ''Feb 29''"
    using nth_stacked_labels [of 59] by (simp only: add_days_59 format_MMM_D_examples)
  have dec: "stacked_labels ! 364 = ''Dec 30''"
    using nth_stacked_labels [of 364] by (simp only: add_days_364 format_MMM_D_examples)
  have leap: "isLeapYear 0"
    by (simp add: isLeapYear_def)
  from len feb dec leap show ?thesis by blast
qed

section \<open>Loading data\<close>

text \<open>
  C4. When the start-date field or the end-date field is empty, \<^verbatim>\<open>loadData\<close> only resets
  the error text: no request is added to those sent, no error is shown, and the loading
  flag, the stored data and the chart stay as they were.
\<close>

theorem loadData_empty_date_skips_fetch:
  assumes "startDateInput p = [] \<or> endDateInput p = []"
  shows "loadData mom resp p = p\<lparr>error := Some []\<rparr>
         \<and> requests (loadData mom resp p) = requests p
         \<and> \<not> error_shown (loadData mom resp p)"
  using assms by (auto simp: loadData_def error_shown_def)

theorem loadData_empty_date_skips_fetch_witness:
  "(startDateInput (initial_page [] ''2023-10-31'' []) = [] \<or> endDateInput (initial_page [] ''2023-10-31'' []) = [])
   \<and> requests (loadData moment_utc NetworkError (initial_page [] ''2023-10-31'' [])) = []
   \<and> \<not> error_shown (loadData moment_utc NetworkError (initial_page [] ''2023-10-31'' []))"
proof -
  have h: "startDateInput (initial_page [] ''2023-10-31'' []) = []
           \<or> endDateInput (initial_page [] ''2023-10-31'' []) = []"
    by (simp add: initial_page_def)
  have r: "requests (initial_page [] ''2023-10-31'' []) = []"
    by (simp add: initial_page_def)
  from loadData_empty_date_skips_fetch [OF h, of moment_utc NetworkError]
  have "requests (loadData moment_utc NetworkError (initial_page [] ''2023-10-31'' []))
          = requests (initial_page [] ''2023-10-31'' [])"
    and "\<not> error_shown (loadData moment_utc NetworkError (initial_page [] ''2023-10-31'' []))"
    by blast+
  with h r show ?thesis by simp
qed

text \<open>
  C5. When both date fields are filled and the fetch fails (the promise is rejected or the
  response is not \<^verbatim>\<open>ok\<close>), the generic message is set and shown, the stored data and the
  chart are as before; and whatever the outcome of the fetch, the loading flag is false
  afterwards.
\<close>

theorem loadData_failure:
  assumes "startDateInput p \<noteq> []" and "endDateInput p \<noteq> []"
    and "resp = NetworkError \<or> resp = HttpResponse False body"
  shows "error (loadData mom resp p) = Some whoopsies
         \<and> error_shown (loadData mom resp p)
         \<and> data (loadData mom resp p) = data p
         \<and> chart (loadData mom resp p) = chart p
         \<and> \<not> isLoading (loadData mom resp p)
         \<and> \<not> isLoading (loadData mom resp' p)"
proof -
  have off: "\<not> isLoading (loadData mom r p)" for r
    using assms(1,2) by (simp add: loadData_def Let_def)
  have fail: "loadData mom resp p =
      p\<lparr>error := Some whoopsies, isLoading := False,
        requests := requests p @ [TimeseriesRequest (startDateInput p @ ''T00:00:00.000Z'')
                                     (endDateInput p @ ''T00:00:00.000Z'') (lat p) (lng p)]\<rparr>"
    using assms by (auto simp: loadData_def Let_def)
  show ?thesis
    using off by (simp add: fail error_shown_def whoopsies_def)
qed

theorem loadData_failure_witness:
  "error (loadData moment_utc (HttpResponse False None) (initial_page ''2021-01-02'' ''2023-10-31'' [])) = Some whoopsies
   \<and> \<not> isLoading (loadData moment_utc (HttpResponse False None) (initial_page ''2021-01-02'' ''2023-10-31'' []))"
proof -
  have h: "startDateInput (initial_page ''2021-01-02'' ''2023-10-31'' []) \<noteq> []"
          "endDateInput (initial_page ''2021-01-02'' ''2023-10-31'' []) \<noteq> []"
    by (simp_all add: initial_page_def)
  have f: "HttpResponse False None = NetworkError
           \<or> (HttpResponse False None :: SpartacusResult response) = HttpResponse False None"
    by simp
  from loadData_failure [OF h f, of moment_utc NetworkError]
  show ?thesis by simp
qed

text \<open>
  C10. \<^verbatim>\<open>loadData\<close> resets the error text before anything else: its result does not
  depend on the error text it starts from, and when a date field is empty the text is empty
  afterwards, so a banner that was shown is gone although nothing is fetched.
\<close>

theorem loadData_clears_error_first:
  "loadData mom resp (p\<lparr>error := e\<rparr>) = loadData mom resp p
   \<and> (startDateInput p = [] \<or> endDateInput p = [] \<longrightarrow>
        error (loadData mom resp (p\<lparr>error := e\<rparr>)) = Some []
        \<and> \<not> error_shown (loadData mom resp (p\<lparr>error := e\<rparr>)))"
  by (auto simp: loadData_def error_shown_def Let_def)

theorem loadData_clears_error_first_witness:
  "error_shown ((initial_page [] [] [])\<lparr>error := Some whoopsies\<rparr>)
   \<and> startDateInput (initial_page [] [] []) = []
   \<and> \<not> error_shown (loadData moment_utc NetworkError ((initial_page [] [] [])\<lparr>error := Some whoopsies\<rparr>))"
proof -
  have h: "startDateInput (initial_page [] [] []) = []"
    by (simp add: initial_page_def)
  have s: "error_shown ((initial_page [] [] [])\<lparr>error := Some whoopsies\<rparr>)"
    by (simp add: error_shown_def whoopsies_def)
  from loadData_clears_error_first
         [where mom = moment_utc and resp = NetworkError and p = "initial_page [] [] []"
            and e = "Some whoopsies"] h s
  show ?thesis by blast
qed

section \<open>Searching\<close>

text \<open>
  C6, as the claim states it, fails: after a failed search the results of the previous
  search are still in \<^verbatim>\<open>searchResults\<close>.
\<close>

theorem search_failure_keeps_results_counterexample:
  "searchResults (search NetworkError
      ((initial_page [] [] ''Wien'')\<lparr>searchResults := [\<lparr>GeocodingResult.lat = ''48.2'', lon = ''16.4'', display_name = ''Wien''\<rparr>]\<rparr>))
   \<noteq> []"
  by (simp add: search_def initial_page_def Let_def)

text \<open>
  C6, amended. When the search fails (the promise is rejected or the response is not
  \<^verbatim>\<open>ok\<close>), the generic message is set and shown, the loading flag is false, and the list
  of results is the one from before the search.
\<close>

theorem search_failure:
  assumes "resp = NetworkError \<or> resp = HttpResponse False body"
  shows "error (search resp p) = Some whoopsies
         \<and> error_shown (search resp p)
         \<and> \<not> isLoading (search resp p)
         \<and> searchResults (search resp p) = searchResults p"
  using assms by (auto simp: search_def Let_def error_shown_def whoopsies_def)

theorem search_failure_witness:
  "error (search (HttpResponse False None) (initial_page [] [] ''Wien'')) = Some whoopsies
   \<and> searchResults (search (HttpResponse False None) (initial_page [] [] ''Wien'')) = []"
proof -
  have f: "HttpResponse False None = NetworkError
           \<or> (HttpResponse False None :: GeocodingResult list response) = HttpResponse False None"
    by simp
  have r: "searchResults (initial_page [] [] ''Wien'') = []"
    by (simp add: initial_page_def)
  from search_failure [OF f, of "initial_page [] [] ''Wien''"] r
  show ?thesis by simp
qed

section \<open>One chart per canvas\<close>

lemma createChart_bound:
  assumes "chart_prop cv = Some ch"
  shows "createChart cv lbls dsets fmt =
           cv\<lparr>chart_prop := Some (ch\<lparr>labels := lbls, datasets := map normalise dsets,
                                      displayFormats_day := fmt, updates := updates ch + 1\<rparr>)\<rparr>"
  using assms by (simp add: createChart_def)

lemma createChart_calls_bound:
  assumes "chart_prop cv = Some ch"
  shows "\<exists>ch'. chart_prop (createChart_calls calls cv) = Some ch'
           \<and> constructed (createChart_calls calls cv) = constructed cv
           \<and> chart_id ch' = chart_id ch
           \<and> updates ch' = updates ch + length calls
           \<and> (calls \<noteq> [] \<longrightarrow>
                labels ch' = fst (last calls)
                \<and> datasets ch' = map normalise (fst (snd (last calls)))
                \<and> displayFormats_day ch' = snd (snd (last calls)))"
  using assms
proof (induction calls arbitrary: cv ch)
  case Nil
  then show ?case by (simp add: createChart_calls_def)
next
  case (Cons c calls)
  obtain l d f where c: "c = (l, d, f)" by (cases c) auto
  let ?ch = "ch\<lparr>labels := l, datasets := map normalise d, displayFormats_day := f,
                 updates := updates ch + 1\<rparr>"
  let ?cv = "createChart cv l d f"
  have step: "?cv = cv\<lparr>chart_prop := Some ?ch\<rparr>"
    using Cons.prems by (rule createChart_bound)
  have bound: "chart_prop ?cv = Some ?ch" by (simp add: step)
  have unfold: "createChart_calls (c # calls) cv = createChart_calls calls ?cv"
    by (simp add: createChart_calls_def c)
  from Cons.IH [OF bound] obtain ch' where
    ih: "chart_prop (createChart_calls calls ?cv) = Some ch'"
        "constructed (createChart_calls calls ?cv) = constructed ?cv"
        "chart_id ch' = chart_id ?ch"
        "updates ch' = updates ?ch + length calls"
        "calls \<noteq> [] \<longrightarrow>
           labels ch' = fst (last calls)
           \<and> datasets ch' = map normalise (fst (snd (last calls)))
           \<and> displayFormats_day ch' = snd (snd (last calls))"
    by blast
  have nil: "calls = [] \<Longrightarrow> ch' = ?ch"
    using ih(1) bound by (simp add: createChart_calls_def)
  show ?case
    unfolding unfold
    using ih nil by (cases "calls = []") (auto simp: step c)
qed

text \<open>
  C9. On a canvas without a chart, any non-empty sequence of \<^verbatim>\<open>createChart\<close> calls
  constructs exactly one chart, the one of the first call, which stays bound to the canvas;
  each later call updates it once, and it carries the labels, the (normalised) datasets and
  the day format of the last call.
\<close>

theorem createChart_single_instance:
  assumes "chart_prop cv = None" and "calls \<noteq> []"
  shows "constructed (createChart_calls calls cv) = constructed cv + 1
         \<and> (\<exists>ch. chart_prop (createChart_calls calls cv) = Some ch
                \<and> chart_id ch = constructed cv
                \<and> updates ch = length calls - 1
                \<and> labels ch = fst (last calls)
                \<and> datasets ch = map normalise (fst (snd (last calls)))
                \<and> displayFormats_day ch = snd (snd (last calls)))"
proof -
  obtain c rest where calls: "calls = c # rest"
    using assms(2) by (cases calls) auto
  obtain l d f where c: "c = (l, d, f)" by (cases c) auto
  let ?ch = "\<lparr>chart_id = constructed cv, labels = l, datasets = map normalise d,
              displayFormats_day = f, updates = 0\<rparr>"
  let ?cv = "createChart cv l d f"
  have first: "?cv = cv\<lparr>chart_prop := Some ?ch, constructed := constructed cv + 1\<rparr>"
    using assms(1) by (simp add: createChart_def)
  have bound: "chart_prop ?cv = Some ?ch" by (simp add: first)
  have unfold: "createChart_calls calls cv = createChart_calls rest ?cv"
    by (simp add: createChart_calls_def calls c)
  from createChart_calls_bound [OF bound, of rest] obtain ch' where
    r: "chart_prop (createChart_calls rest ?cv) = Some ch'"
       "constructed (createChart_calls rest ?cv) = constructed ?cv"
       "chart_id ch' = chart_id ?ch"
       "updates ch' = updates ?ch + length rest"
       "rest \<noteq> [] \<longrightarrow>
          labels ch' = fst (last rest)
          \<and> datasets ch' = map normalise (fst (snd (last rest)))
          \<and> displayFormats_day ch' = snd (snd (last rest))"
    by blast
  have nil: "rest = [] \<Longrightarrow> ch' = ?ch"
    using r(1) bound by (simp add: createChart_calls_def)
  show ?thesis
    unfolding unfold
    using r nil by (cases "rest = []") (auto simp: first calls c)
qed

theorem createChart_single_instance_witness:
  "constructed (createChart_calls [([''a''], [], ''DD-MM''), ([''b''], [], ''YYYY-MM-DD'')]
      \<lparr>chart_prop = None, constructed = 0\<rparr>) = 1
   \<and> (\<exists>ch. chart_prop (createChart_calls [([''a''], [], ''DD-MM''), ([''b''], [], ''YYYY-MM-DD'')]
               \<lparr>chart_prop = None, constructed = 0\<rparr>) = Some ch
          \<and> chart_id ch = 0 \<and> updates ch = 1 \<and> labels ch = [''b'']
          \<and> displayFormats_day ch = ''YYYY-MM-DD'')"
  using createChart_single_instance
    [of "\<lparr>chart_prop = None, constructed = 0\<rparr>" "[([''a''], [], ''DD-MM''), ([''b''], [], ''YYYY-MM-DD'')]"]
  by auto

section \<open>Rounding to doubles\<close>

lemma bits_pos:
  assumes "0 < n"
  shows "\<exists>k. bits n = Suc k \<and> 2 ^ k \<le> n \<and> n < 2 ^ Suc k"
  using assms
proof (induction n rule: bits.induct)
  case (1 n)
  show ?case
  proof (cases "n div 2 = 0")
    case True
    with 1(2) have "n = 1" by auto
    then have "bits n = Suc 0" by (simp add: bits.simps)
    with \<open>n = 1\<close> show ?thesis by simp
  next
    case False
    then have "0 < n div 2" by simp
    from 1(1) [OF _ this] 1(2) obtain k where
      k: "bits (n div 2) = Suc k" "2 ^ k \<le> n div 2" "n div 2 < 2 ^ Suc k"
      by auto
    have b: "bits n = Suc (Suc k)"
      using 1(2) k(1) by (simp add: bits.simps [of n])
    have "2 * 2 ^ k \<le> 2 * (n div 2)" using k(2) by simp
    moreover have "2 * (n div 2) \<le> n" by simp
    ultimately have lo: "2 ^ Suc k \<le> n" by simp
    have "Suc (n div 2) \<le> 2 ^ Suc k" using k(3) by simp
    then have "2 * Suc (n div 2) \<le> 2 * 2 ^ Suc k" by simp
    moreover have "n < 2 * Suc (n div 2)" by arith
    ultimately have hi: "n < 2 ^ Suc (Suc k)" by simp
    from b lo hi show ?thesis by blast
  qed
qed

lemma ilog2_bounds:
  assumes "0 < x"
  shows "2 powi ilog2 x \<le> x" and "x < 2 powi (ilog2 x + 1)"
proof -
  have "2 powi ilog2 x \<le> x \<and> x < 2 powi (ilog2 x + 1)"
  proof (cases "1 \<le> x")
    case True
    let ?n = "nat \<lfloor>x\<rfloor>"
    have n: "0 < ?n" using True by simp
    from bits_pos [OF n] obtain k where
      k: "bits ?n = Suc k" "2 ^ k \<le> ?n" "?n < 2 ^ Suc k" by blast
    have e: "ilog2 x = int k"
      using True k(1) by (simp add: ilog2_def)
    have "real ?n \<le> x" using True by simp
    moreover have "(2::real) ^ k \<le> real ?n"
      using k(2) by (metis of_nat_le_iff of_nat_numeral of_nat_power)
    ultimately have lo: "2 ^ k \<le> x" by (rule order_trans [rotated])
    have "x < real ?n + 1" using True by simp
    moreover have "real ?n + 1 \<le> 2 ^ Suc k"
    proof -
      have "Suc ?n \<le> 2 ^ Suc k" using k(3) by simp
      then have "real (Suc ?n) \<le> real (2 ^ Suc k)" by (rule iffD2 [OF of_nat_le_iff])
      then show ?thesis by simp
    qed
    ultimately have hi: "x < 2 ^ Suc k" by (rule less_le_trans)
    have "(2::real) powi (int k + 1) = 2 ^ Suc k"
      by (metis of_nat_Suc power_int_of_nat of_nat_1 of_nat_add Suc_eq_plus1)
    with lo hi show ?thesis by (simp add: e)
  next
    case False
    then have x1: "x < 1" by simp
    let ?c = "\<lceil>1 / x\<rceil>"
    let ?n = "nat (?c - 1)"
    have inv: "1 < 1 / x" using assms x1 by simp
    then have c2: "2 \<le> ?c" by linarith
    then have n: "0 < ?n" by simp
    from bits_pos [OF n] obtain k where
      k: "bits ?n = Suc k" "2 ^ k \<le> ?n" "?n < 2 ^ Suc k" by blast
    have e: "ilog2 x = - int (Suc k)"
      using False k(1) by (simp add: ilog2_def)
    have "0 \<le> ?c - 1" using c2 by linarith
    then have "real ?n = of_int (?c - 1)" by (rule of_nat_nat)
    then have rn: "real ?n = of_int ?c - 1" by simp
    have "1 / x \<le> of_int ?c" by linarith
    moreover have "of_int ?c \<le> (2::real) ^ Suc k"
    proof -
      have "Suc ?n \<le> 2 ^ Suc k" using k(3) by simp
      then have "real (Suc ?n) \<le> real (2 ^ Suc k)" by (rule iffD2 [OF of_nat_le_iff])
      then show ?thesis using rn by simp
    qed
    ultimately have "1 / x \<le> 2 ^ Suc k" by linarith
    then have lo: "1 / 2 ^ Suc k \<le> x"
      using assms by (simp add: field_simps)
    have "of_int ?c - 1 < 1 / x" by linarith
    moreover have "(2::real) ^ k \<le> real ?n"
      using k(2) by (metis of_nat_le_iff of_nat_numeral of_nat_power)
    ultimately have "2 ^ k < 1 / x" using rn by linarith
    then have hi: "x < 1 / 2 ^ k"
      using assms by (simp add: field_simps)
    have p1: "(2::real) powi (- int (Suc k)) = 1 / 2 ^ Suc k"
      by (simp only: power_int_minus_divide power_int_of_nat)
    have p2: "(2::real) powi (- int (Suc k) + 1) = 1 / 2 ^ k"
    proof -
      have "- int (Suc k) + 1 = - int k" by simp
      then show ?thesis by (simp only: power_int_minus_divide power_int_of_nat)
    qed
    from lo hi show ?thesis
      unfolding e p1 p2 by simp
  qed
  then show "2 powi ilog2 x \<le> x" and "x < 2 powi (ilog2 x + 1)" by simp_all
qed

lemma ilog2_unique:
  assumes "2 powi e \<le> x" and "x < 2 powi (e + 1)"
  shows "ilog2 x = e"
proof -
  have pos: "0 < x"
    using assms(1) zero_less_power_int [of "2::real" e] by linarith
  note b = ilog2_bounds [OF pos]
  have "\<not> ilog2 x < e"
  proof
    assume "ilog2 x < e"
    then have "ilog2 x + 1 \<le> e" by simp
    then have "(2::real) powi (ilog2 x + 1) \<le> 2 powi e"
      by (intro power_int_increasing) simp_all
    with b(2) assms(1) show False by linarith
  qed
  moreover have "\<not> e < ilog2 x"
  proof
    assume "e < ilog2 x"
    then have "e + 1 \<le> ilog2 x" by simp
    then have "(2::real) powi (e + 1) \<le> 2 powi ilog2 x"
      by (intro power_int_increasing) simp_all
    with b(1) assms(2) show False by linarith
  qed
  ultimately show ?thesis by simp
qed

lemma ilog2_mono:
  assumes "0 < x" and "x \<le> y"
  shows "ilog2 x \<le> ilog2 y"
proof (rule ccontr)
  assume "\<not> ilog2 x \<le> ilog2 y"
  then have "ilog2 y + 1 \<le> ilog2 x" by simp
  then have "(2::real) powi (ilog2 y + 1) \<le> 2 powi ilog2 x"
    by (intro power_int_increasing) simp_all
  moreover have "0 < y" using assms by simp
  ultimately show False
    using ilog2_bounds(1) [OF assms(1)] ilog2_bounds(2) [OF \<open>0 < y\<close>] assms(2) by linarith
qed

lemma rne_eqI:
  assumes "of_int k - 1 / 2 < m" and "m < of_int k + 1 / 2"
  shows "rne m = k"
proof (cases "m < of_int k")
  case True
  have "\<lfloor>m\<rfloor> = k - 1"
    using True assms(1) by (intro floor_unique) simp_all
  then show ?thesis
    using assms(1) by (simp add: rne_def Let_def)
next
  case False
  have "\<lfloor>m\<rfloor> = k"
    using False assms(2) by (intro floor_unique) simp_all
  then show ?thesis
    using assms(2) by (simp add: rne_def Let_def)
qed

lemma rne_tie_even:
  assumes "m = of_int k + 1 / 2" and "even k"
  shows "rne m = k"
proof -
  have "\<lfloor>m\<rfloor> = k"
    using assms(1) by (intro floor_unique) simp_all
  then show ?thesis
    using assms by (simp add: rne_def Let_def)
qed

lemma rne_tie_even_up:
  assumes "m = of_int k - 1 / 2" and "even k"
  shows "rne m = k"
proof -
  have "\<lfloor>m\<rfloor> = k - 1"
    using assms(1) by (intro floor_unique) simp_all
  then show ?thesis
    using assms by (simp add: rne_def Let_def)
qed

lemma rne_of_int: "rne (of_int k) = k"
  by (rule rne_eqI) simp_all

lemma rne_upper: "of_int (rne m) \<le> m + 1 / 2"
proof -
  have a: "of_int \<lfloor>m\<rfloor> \<le> m" by simp
  show ?thesis
    by (auto simp: rne_def Let_def) (use a in linarith)+
qed

lemma rne_lower: "m - 1 / 2 \<le> of_int (rne m)"
proof -
  have a: "m < of_int \<lfloor>m\<rfloor> + 1" by linarith
  show ?thesis
    by (auto simp: rne_def Let_def) (use a in linarith)+
qed

lemma rne_le_int:
  assumes "m \<le> of_int j"
  shows "rne m \<le> j"
proof (cases "m = of_int j")
  case True
  then show ?thesis by (simp add: rne_of_int)
next
  case False
  with assms have lt: "m < of_int j" by simp
  then have fl: "\<lfloor>m\<rfloor> < j" by (simp add: floor_less_iff)
  have "rne m \<le> \<lfloor>m\<rfloor> + 1" by (simp add: rne_def Let_def)
  with fl show ?thesis by simp
qed

lemma rne_ge_int:
  assumes "of_int j \<le> m"
  shows "j \<le> rne m"
proof -
  have "j \<le> \<lfloor>m\<rfloor>" using assms by (simp add: le_floor_iff)
  moreover have "\<lfloor>m\<rfloor> \<le> rne m" by (simp add: rne_def Let_def)
  ultimately show ?thesis by simp
qed

lemma rne_mono:
  assumes "a \<le> b"
  shows "rne a \<le> rne b"
proof (cases "\<lfloor>a\<rfloor> = \<lfloor>b\<rfloor>")
  case True
  have "a - of_int \<lfloor>b\<rfloor> \<le> b - of_int \<lfloor>b\<rfloor>" using assms by simp
  then show ?thesis
    by (auto simp: rne_def Let_def True)
next
  case False
  have "\<lfloor>a\<rfloor> \<le> \<lfloor>b\<rfloor>" using assms by (rule floor_mono)
  with False have "\<lfloor>a\<rfloor> + 1 \<le> \<lfloor>b\<rfloor>" by simp
  moreover have "rne a \<le> \<lfloor>a\<rfloor> + 1" by (simp add: rne_def Let_def)
  moreover have "\<lfloor>b\<rfloor> \<le> rne b" by (simp add: rne_def Let_def)
  ultimately show ?thesis by simp
qed

lemma scaled_range:
  fixes x :: real
  assumes "2 powi e \<le> x" and "x < 2 powi (e + 1)"
  shows "2 ^ 52 \<le> x / 2 powi (e - 52)" and "x / 2 powi (e - 52) < 2 ^ 53"
proof -
  have s: "0 < (2::real) powi (e - 52)" by simp
  have a: "(2::real) powi e = 2 ^ 52 * 2 powi (e - 52)"
    using power_int_add [of "2::real" 52 "e - 52"] by simp
  have b: "(2::real) powi (e + 1) = 2 ^ 53 * 2 powi (e - 52)"
    using power_int_add [of "2::real" 53 "e - 52"] by (simp add: add.commute)
  show "2 ^ 52 \<le> x / 2 powi (e - 52)"
    using assms(1) s unfolding a by (simp add: pos_le_divide_eq)
  show "x / 2 powi (e - 52) < 2 ^ 53"
    using assms(2) s unfolding b by (simp add: pos_divide_less_eq)
qed

lemma fl_pos_lower:
  assumes "0 < x"
  shows "2 powi ilog2 x \<le> fl_pos x"
proof -
  let ?s = "(2::real) powi (ilog2 x - 52)"
  have "of_int (2 ^ 52) \<le> x / ?s"
    using scaled_range(1) [OF ilog2_bounds [OF assms]] by simp
  then have "2 ^ 52 \<le> rne (x / ?s)" by (rule rne_ge_int)
  then have "(2::real) ^ 52 \<le> of_int (rne (x / ?s))"
    by (metis of_int_le_iff of_int_numeral of_int_power)
  then have "2 ^ 52 * ?s \<le> of_int (rne (x / ?s)) * ?s"
    by (intro mult_right_mono) simp_all
  moreover have "(2::real) powi ilog2 x = 2 ^ 52 * ?s"
    using power_int_add [of "2::real" 52 "ilog2 x - 52"] by simp
  ultimately show ?thesis by (simp add: fl_pos_def)
qed

lemma fl_pos_upper:
  assumes "0 < x"
  shows "fl_pos x \<le> 2 powi (ilog2 x + 1)"
proof -
  let ?s = "(2::real) powi (ilog2 x - 52)"
  have "x / ?s \<le> of_int (2 ^ 53)"
    using scaled_range(2) [OF ilog2_bounds [OF assms]] by simp
  then have "rne (x / ?s) \<le> 2 ^ 53" by (rule rne_le_int)
  then have "of_int (rne (x / ?s)) \<le> (2::real) ^ 53"
    by (metis of_int_le_iff of_int_numeral of_int_power)
  then have "of_int (rne (x / ?s)) * ?s \<le> 2 ^ 53 * ?s"
    by (intro mult_right_mono) simp_all
  moreover have "(2::real) powi (ilog2 x + 1) = 2 ^ 53 * ?s"
    using power_int_add [of "2::real" 53 "ilog2 x - 52"] by (simp add: add.commute)
  ultimately show ?thesis by (simp add: fl_pos_def)
qed

lemma fl_pos_mono:
  assumes "0 < x" and "x \<le> y"
  shows "fl_pos x \<le> fl_pos y"
proof (cases "ilog2 x = ilog2 y")
  case True
  let ?s = "(2::real) powi (ilog2 y - 52)"
  have "x / ?s \<le> y / ?s"
    using assms(2) by (intro divide_right_mono) simp_all
  then have "rne (x / ?s) \<le> rne (y / ?s)" by (rule rne_mono)
  then have "of_int (rne (x / ?s)) * ?s \<le> of_int (rne (y / ?s)) * ?s"
    by (intro mult_right_mono) simp_all
  then show ?thesis by (simp add: fl_pos_def True)
next
  case False
  have y: "0 < y" using assms by simp
  from False ilog2_mono [OF assms] have "ilog2 x + 1 \<le> ilog2 y" by simp
  then have "(2::real) powi (ilog2 x + 1) \<le> 2 powi ilog2 y"
    by (intro power_int_increasing) simp_all
  with fl_pos_upper [OF assms(1)] fl_pos_lower [OF y] show ?thesis by linarith
qed

lemma fl_pos_error:
  assumes "0 < x"
  shows "fl_pos x \<le> x * (1 + 1 / 2 ^ 53)"
proof -
  let ?s = "(2::real) powi (ilog2 x - 52)"
  let ?m = "x / ?s"
  have s: "0 < ?s" by simp
  have m: "2 ^ 52 \<le> ?m"
    by (rule scaled_range(1) [OF ilog2_bounds [OF assms]])
  have "of_int (rne ?m) \<le> ?m + 1 / 2" by (rule rne_upper)
  also have "\<dots> \<le> ?m + ?m / 2 ^ 53"
    using m by simp
  finally have "of_int (rne ?m) * ?s \<le> (?m + ?m / 2 ^ 53) * ?s"
    using s by (intro mult_right_mono) simp_all
  also have "\<dots> = x * (1 + 1 / 2 ^ 53)"
    using s by (simp add: field_simps)
  finally show ?thesis by (simp add: fl_pos_def)
qed

lemma fl_nonneg:
  assumes "0 \<le> x"
  shows "0 \<le> fl x"
proof (cases "x = 0")
  case True
  then show ?thesis by (simp add: fl_def)
next
  case False
  with assms have x: "0 < x" by simp
  have "0 < (2::real) powi ilog2 x" by simp
  with fl_pos_lower [OF x] have "0 \<le> fl_pos x" by linarith
  then show ?thesis
    using x by (simp add: fl_def)
qed

lemma fl_mono:
  assumes "0 \<le> x" and "x \<le> y"
  shows "fl x \<le> fl y"
proof (cases "x = 0")
  case True
  have "0 \<le> fl y" using assms by (intro fl_nonneg) simp
  then show ?thesis by (simp add: True fl_def)
next
  case False
  with assms have x: "0 < x" and y: "0 < y" by simp_all
  with fl_pos_mono [OF x assms(2)] show ?thesis by (simp add: fl_def)
qed

lemma fl_error:
  assumes "0 \<le> x"
  shows "fl x \<le> x * (1 + 1 / 2 ^ 53)"
proof (cases "x = 0")
  case True
  then show ?thesis by (simp add: fl_def)
next
  case False
  with assms have x: "0 < x" by simp
  with fl_pos_error [OF x] show ?thesis by (simp add: fl_def)
qed

lemma fl_eqI:
  assumes "2 powi e \<le> x" and "x < 2 powi (e + 1)" and "rne (x / 2 powi (e - 52)) = k"
  shows "fl x = of_int k * 2 powi (e - 52)"
proof -
  have pos: "0 < x"
    using assms(1) zero_less_power_int [of "2::real" e] by linarith
  have "ilog2 x = e" using assms(1,2) by (rule ilog2_unique)
  then show ?thesis
    using pos assms(3) by (simp add: fl_def fl_pos_def)
qed

lemma fl_one_plus: "fl (1 + 1 / 2 ^ 53) = 1"
proof -
  have r: "rne ((1 + 1 / 2 ^ 53) / 2 powi (0 - 52)) = 2 ^ 52"
    by (rule rne_tie_even) simp_all
  have "fl (1 + 1 / 2 ^ 53) = of_int (2 ^ 52) * 2 powi (0 - 52)"
    by (rule fl_eqI [OF _ _ r]) simp_all
  then show ?thesis by simp
qed

lemma fl_04: "fl 0.4 = 3602879701896397 / 9007199254740992"
proof -
  have r: "rne (0.4 / 2 powi (- 2 - 52)) = 7205759403792794"
    by (rule rne_eqI) simp_all
  have "fl 0.4 = of_int 7205759403792794 * 2 powi (- 2 - 52)"
    by (rule fl_eqI [OF _ _ r]) simp_all
  then show ?thesis by simp
qed

lemma fl_fl_04: "fl (3602879701896397 / 9007199254740992) = 3602879701896397 / 9007199254740992"
proof -
  have r: "rne (3602879701896397 / 9007199254740992 / 2 powi (- 2 - 52)) = 7205759403792794"
    by (rule rne_eqI) simp_all
  have "fl (3602879701896397 / 9007199254740992) = of_int 7205759403792794 * 2 powi (- 2 - 52)"
    by (rule fl_eqI [OF _ _ r]) simp_all
  then show ?thesis by simp
qed

lemma fl_06: "fl 0.6 = 5404319552844595 / 9007199254740992"
proof -
  have r: "rne (0.6 / 2 powi (- 1 - 52)) = 5404319552844595"
    by (rule rne_eqI) simp_all
  have "fl 0.6 = of_int 5404319552844595 * 2 powi (- 1 - 52)"
    by (rule fl_eqI [OF _ _ r]) simp_all
  then show ?thesis by simp
qed

lemma fl_04_normal: "fl (2 / 5) = 3602879701896397 / 9007199254740992"
  using fl_04 by simp

lemma fl_06_normal: "fl (3 / 5) = 5404319552844595 / 9007199254740992"
  using fl_06 by simp

lemma opacity_unfold:
  assumes "int index \<noteq> int n - 1"
  shows "opacity n index =
           fl (fl (fl (1 - fl (fl (1 / real n) * (real n - real index))) * fl 0.6) + fl 0.4)"
  using assms by (simp add: opacity_def Let_def)

lemma opacity_last:
  assumes "int index = int n - 1"
  shows "opacity n index = 1"
  using assms by (simp add: opacity_def Let_def)

lemma opacity_49_0: "opacity 49 0 = 7205759403792795 / 18014398509481984"
proof -
  have f1: "fl (1 / real 49) = 5882252574524729 / 288230376151711744"
  proof -
    have r: "rne ((1 / real 49) / 2 powi (- 6 - 52)) = 5882252574524729"
      by (rule rne_eqI) (simp_all)
    have "fl (1 / real 49) = of_int 5882252574524729 * 2 powi (- 6 - 52)"
      by (rule fl_eqI [OF _ _ r]) (simp_all)
    then show ?thesis by simp
  qed
  have f2: "fl ((5882252574524729 / 288230376151711744) * (real 49 - real 0)) = 9007199254740991 / 9007199254740992"
  proof -
    have r: "rne (((5882252574524729 / 288230376151711744) * (real 49 - real 0)) / 2 powi (- 1 - 52)) = 9007199254740991"
      by (rule rne_eqI) (simp_all)
    have "fl ((5882252574524729 / 288230376151711744) * (real 49 - real 0)) = of_int 9007199254740991 * 2 powi (- 1 - 52)"
      by (rule fl_eqI [OF _ _ r]) (simp_all)
    then show ?thesis by simp
  qed
  have f3: "fl (1 - (9007199254740991 / 9007199254740992)) = 1 / 9007199254740992"
  proof -
    have r: "rne ((1 - (9007199254740991 / 9007199254740992)) / 2 powi (- 53 - 52)) = 4503599627370496"
      by (rule rne_eqI) (simp_all)
    have "fl (1 - (9007199254740991 / 9007199254740992)) = of_int 4503599627370496 * 2 powi (- 53 - 52)"
      by (rule fl_eqI [OF _ _ r]) (simp_all)
    then show ?thesis by simp
  qed
  have f4: "fl ((1 / 9007199254740992) * fl 0.6) = 5404319552844595 / 81129638414606681695789005144064"
  proof -
    have r: "rne (((1 / 9007199254740992) * fl 0.6) / 2 powi (- 54 - 52)) = 5404319552844595"
      by (rule rne_eqI) (simp_all add: fl_06_normal)
    have "fl ((1 / 9007199254740992) * fl 0.6) = of_int 5404319552844595 * 2 powi (- 54 - 52)"
      by (rule fl_eqI [OF _ _ r]) (simp_all add: fl_06_normal)
    then show ?thesis by simp
  qed
  have f5: "fl ((5404319552844595 / 81129638414606681695789005144064) + fl 0.4) = 7205759403792795 / 18014398509481984"
  proof -
    have r: "rne (((5404319552844595 / 81129638414606681695789005144064) + fl 0.4) / 2 powi (- 2 - 52)) = 7205759403792795"
      by (rule rne_eqI) (simp_all add: fl_04_normal)
    have "fl ((5404319552844595 / 81129638414606681695789005144064) + fl 0.4) = of_int 7205759403792795 * 2 powi (- 2 - 52)"
      by (rule fl_eqI [OF _ _ r]) (simp_all add: fl_04_normal)
    then show ?thesis by simp
  qed
  have "opacity 49 0 =
      fl (fl (fl (1 - fl (fl (1 / real 49) * (real 49 - real 0))) * fl 0.6) + fl 0.4)"
    by (rule opacity_unfold) simp
  also have "\<dots> = 7205759403792795 / 18014398509481984"
    by (simp only: f1 f2 f3 f4 f5)
  finally show ?thesis .
qed

lemma opacity_3_1: "opacity 3 1 = 1351079888211149 / 2251799813685248"
proof -
  have f1: "fl (1 / real 3) = 6004799503160661 / 18014398509481984"
  proof -
    have r: "rne ((1 / real 3) / 2 powi (- 2 - 52)) = 6004799503160661"
      by (rule rne_eqI) (simp_all)
    have "fl (1 / real 3) = of_int 6004799503160661 * 2 powi (- 2 - 52)"
      by (rule fl_eqI [OF _ _ r]) (simp_all)
    then show ?thesis by simp
  qed
  have f2: "fl ((6004799503160661 / 18014398509481984) * (real 3 - real 1)) = 6004799503160661 / 9007199254740992"
  proof -
    have r: "rne (((6004799503160661 / 18014398509481984) * (real 3 - real 1)) / 2 powi (- 1 - 52)) = 6004799503160661"
      by (rule rne_eqI) (simp_all)
    have "fl ((6004799503160661 / 18014398509481984) * (real 3 - real 1)) = of_int 6004799503160661 * 2 powi (- 1 - 52)"
      by (rule fl_eqI [OF _ _ r]) (simp_all)
    then show ?thesis by simp
  qed
  have f3: "fl (1 - (6004799503160661 / 9007199254740992)) = 3002399751580331 / 9007199254740992"
  proof -
    have r: "rne ((1 - (6004799503160661 / 9007199254740992)) / 2 powi (- 2 - 52)) = 6004799503160662"
      by (rule rne_eqI) (simp_all)
    have "fl (1 - (6004799503160661 / 9007199254740992)) = of_int 6004799503160662 * 2 powi (- 2 - 52)"
      by (rule fl_eqI [OF _ _ r]) (simp_all)
    then show ?thesis by simp
  qed
  have f4: "fl ((3002399751580331 / 9007199254740992) * fl 0.6) = 3602879701896397 / 18014398509481984"
  proof -
    have r: "rne (((3002399751580331 / 9007199254740992) * fl 0.6) / 2 powi (- 3 - 52)) = 7205759403792794"
      by (rule rne_eqI) (simp_all add: fl_06_normal)
    have "fl ((3002399751580331 / 9007199254740992) * fl 0.6) = of_int 7205759403792794 * 2 powi (- 3 - 52)"
      by (rule fl_eqI [OF _ _ r]) (simp_all add: fl_06_normal)
    then show ?thesis by simp
  qed
  have f5: "fl ((3602879701896397 / 18014398509481984) + fl 0.4) = 1351079888211149 / 2251799813685248"
  proof -
    have r: "rne (((3602879701896397 / 18014398509481984) + fl 0.4) / 2 powi (- 1 - 52)) = 5404319552844596"
      by (rule rne_tie_even_up) (simp_all add: fl_04_normal)
    have "fl ((3602879701896397 / 18014398509481984) + fl 0.4) = of_int 5404319552844596 * 2 powi (- 1 - 52)"
      by (rule fl_eqI [OF _ _ r]) (simp_all add: fl_04_normal)
    then show ?thesis by simp
  qed
  have "opacity 3 1 =
      fl (fl (fl (1 - fl (fl (1 / real 3) * (real 3 - real 1))) * fl 0.6) + fl 0.4)"
    by (rule opacity_unfold) simp
  also have "\<dots> = 1351079888211149 / 2251799813685248"
    by (simp only: f1 f2 f3 f4 f5)
  finally show ?thesis .
qed

lemma opacity_2_0: "opacity 2 0 = 3602879701896397 / 9007199254740992"
proof -
  have f1: "fl (1 / real 2) = 1 / 2"
  proof -
    have r: "rne ((1 / real 2) / 2 powi (- 1 - 52)) = 4503599627370496"
      by (rule rne_eqI) (simp_all)
    have "fl (1 / real 2) = of_int 4503599627370496 * 2 powi (- 1 - 52)"
      by (rule fl_eqI [OF _ _ r]) (simp_all)
    then show ?thesis by simp
  qed
  have f2: "fl ((1 / 2) * (real 2 - real 0)) = 1"
  proof -
    have r: "rne (((1 / 2) * (real 2 - real 0)) / 2 powi (0 - 52)) = 4503599627370496"
      by (rule rne_eqI) (simp_all)
    have "fl ((1 / 2) * (real 2 - real 0)) = of_int 4503599627370496 * 2 powi (0 - 52)"
      by (rule fl_eqI [OF _ _ r]) (simp_all)
    then show ?thesis by simp
  qed
  have f3: "fl (1 - 1) = 0"
    by (simp add: fl_def)
  have f4: "fl ((0) * fl 0.6) = 0"
    by (simp add: fl_def fl_06)
  have f5: "fl ((0) + fl 0.4) = 3602879701896397 / 9007199254740992"
  proof -
    have r: "rne (((0) + fl 0.4) / 2 powi (- 2 - 52)) = 7205759403792794"
      by (rule rne_eqI) (simp_all add: fl_04_normal)
    have "fl ((0) + fl 0.4) = of_int 7205759403792794 * 2 powi (- 2 - 52)"
      by (rule fl_eqI [OF _ _ r]) (simp_all add: fl_04_normal)
    then show ?thesis by simp
  qed
  have "opacity 2 0 =
      fl (fl (fl (1 - fl (fl (1 / real 2) * (real 2 - real 0))) * fl 0.6) + fl 0.4)"
    by (rule opacity_unfold) simp
  also have "\<dots> = 3602879701896397 / 9007199254740992"
    by (simp only: f1 f2 f3 f4 f5)
  finally show ?thesis .
qed

lemma opacity_lower:
  assumes "index < n"
  shows "0.4 \<le> opacity n index"
proof (cases "int index = int n - 1")
  case True
  then show ?thesis by (simp add: opacity_last)
next
  case False
  let ?u = "1 / 2 ^ 53 :: real"
  let ?b = "fl (1 / real n)"
  let ?t = "?b * (real n - real index)"
  let ?p = "fl ?t"
  let ?q = "fl (1 - ?p)"
  let ?r = "fl (?q * fl 0.6)"
  have n: "0 < real n" using assms by simp
  have b0: "0 \<le> ?b" by (rule fl_nonneg) simp
  have b1: "?b \<le> 1 / real n * (1 + ?u)" by (rule fl_error) simp
  have d0: "0 \<le> real n - real index" using assms by simp
  have d1: "real n - real index \<le> real n" by simp
  have t0: "0 \<le> ?t" using b0 d0 by (rule mult_nonneg_nonneg)
  have "?t \<le> (1 / real n * (1 + ?u)) * (real n - real index)"
    using b1 d0 by (rule mult_right_mono)
  also have "\<dots> \<le> (1 / real n * (1 + ?u)) * real n"
    using d1 by (intro mult_left_mono) simp_all
  also have "\<dots> = 1 + ?u" using n by simp
  finally have t1: "?t \<le> 1 + ?u" .
  have "?p \<le> fl (1 + ?u)" using t0 t1 by (rule fl_mono)
  then have p1: "?p \<le> 1" by (simp only: fl_one_plus)
  have q0: "0 \<le> ?q" using p1 by (intro fl_nonneg) simp
  have "0 \<le> fl 0.6" by (rule fl_nonneg) simp
  with q0 have "0 \<le> ?q * fl 0.6" by (rule mult_nonneg_nonneg)
  then have r0: "0 \<le> ?r" by (rule fl_nonneg)
  have d04: "0 \<le> fl 0.4" by (rule fl_nonneg) simp
  have "fl (fl 0.4) \<le> fl (?r + fl 0.4)"
    using d04 r0 by (intro fl_mono) simp_all
  moreover have "fl (fl 0.4) = fl 0.4" by (simp only: fl_04 fl_fl_04)
  moreover have "0.4 \<le> fl 0.4" by (simp add: fl_04_normal)
  ultimately have "0.4 \<le> fl (?r + fl 0.4)" by linarith
  then show ?thesis by (simp only: opacity_unfold [OF False])
qed

section \<open>The datasets of the stacked view\<close>

lemma min_year_step:
  assumes "map_of yd y = Some b"
  shows "min_year fc mc yd n (i, y) acc =
           Inr (acc @ (if mc \<and> (fc \<longrightarrow> isFirstOrLast n i) then [min_dataset b n i y] else []))"
  using assms by (simp add: min_year_def)

lemma max_year_step:
  assumes "map_of yd y = Some b"
  shows "max_year fc xc yd n (i, y) acc =
           Inr (acc @ (if xc \<and> (fc \<longrightarrow> isFirstOrLast n i) then [max_dataset b n i y] else []))"
  using assms by (simp add: max_year_def)

lemma forEach_min_year:
  assumes "\<And>y. y \<in> set ys \<Longrightarrow> map_of yd y \<noteq> None"
  shows "forEach (min_year fc mc yd n) (enumerate k ys) acc =
           Inr (acc @ map (\<lambda>(i, y). min_dataset (the (map_of yd y)) n i y)
                        (filter (\<lambda>(i, y). mc \<and> (fc \<longrightarrow> isFirstOrLast n i)) (enumerate k ys)))"
  using assms
proof (induction ys arbitrary: k acc)
  case Nil
  then show ?case by simp
next
  case (Cons y ys)
  from Cons.prems [of y] obtain b where b: "map_of yd y = Some b" by auto
  have rest: "\<And>z. z \<in> set ys \<Longrightarrow> map_of yd z \<noteq> None"
    using Cons.prems by simp
  show ?case
    by (simp add: min_year_step [OF b] Cons.IH [OF rest] b)
qed

lemma forEach_max_year:
  assumes "\<And>y. y \<in> set ys \<Longrightarrow> map_of yd y \<noteq> None"
  shows "forEach (max_year fc xc yd n) (enumerate k ys) acc =
           Inr (acc @ map (\<lambda>(i, y). max_dataset (the (map_of yd y)) n i y)
                        (filter (\<lambda>(i, y). xc \<and> (fc \<longrightarrow> isFirstOrLast n i)) (enumerate k ys)))"
  using assms
proof (induction ys arbitrary: k acc)
  case Nil
  then show ?case by simp
next
  case (Cons y ys)
  from Cons.prems [of y] obtain b where b: "map_of yd y = Some b" by auto
  have rest: "\<And>z. z \<in> set ys \<Longrightarrow> map_of yd z \<noteq> None"
    using Cons.prems by simp
  show ?case
    by (simp add: max_year_step [OF b] Cons.IH [OF rest] b)
qed

lemma year_datasets_eq:
  fixes yd :: yearlyData
  defines "years \<equiv> sort (map fst yd)"
  shows "year_datasets fc mc xc yd =
     Inr (map (\<lambda>(i, y). min_dataset (the (map_of yd y)) (length years) i y)
            (filter (\<lambda>(i, y). mc \<and> (fc \<longrightarrow> isFirstOrLast (length years) i)) (enumerate 0 years))
          @ map (\<lambda>(i, y). max_dataset (the (map_of yd y)) (length years) i y)
            (filter (\<lambda>(i, y). xc \<and> (fc \<longrightarrow> isFirstOrLast (length years) i)) (enumerate 0 years)))"
proof -
  have present: "\<And>y. y \<in> set years \<Longrightarrow> map_of yd y \<noteq> None"
    by (simp add: years_def map_of_eq_None_iff)
  have unfold: "year_datasets fc mc xc yd =
      (case forEach (min_year fc mc yd (length years)) (enumerate 0 years) [] of
         Inl e \<Rightarrow> Inl e
       | Inr dsets \<Rightarrow> forEach (max_year fc xc yd (length years)) (enumerate 0 years) dsets)"
    unfolding year_datasets_def years_def Let_def ..
  have mins: "forEach (min_year fc mc yd (length years)) (enumerate 0 years) [] =
      Inr (map (\<lambda>(i, y). min_dataset (the (map_of yd y)) (length years) i y)
            (filter (\<lambda>(i, y). mc \<and> (fc \<longrightarrow> isFirstOrLast (length years) i)) (enumerate 0 years)))"
    using forEach_min_year [of years yd fc mc "length years" 0 "[]"] present by simp
  show ?thesis
    unfolding unfold mins sum.case
    using forEach_max_year [of years yd fc xc "length years" 0] present by blast
qed

lemma fortynine_sorted:
  "sort (map fst fortynine_years) = map fst fortynine_years"
  by (rule sort_key_id_if_sorted) (simp add: fortynine_years_def)

lemma fortynine_datasets:
  "year_datasets True True False fortynine_years =
     Inr [min_dataset \<lparr>minTemps = [Num 1], maxTemps = [Num 9]\<rparr> 49 0 ''1975'',
          min_dataset \<lparr>minTemps = [Num 1], maxTemps = [Num 9]\<rparr> 49 48 ''2023'']"
  unfolding year_datasets_eq fortynine_sorted
  by (simp add: fortynine_years_def enumerate_eq_zip upt_rec_numeral isFirstOrLast_def
      eval_nat_numeral)

text \<open>
  C3, as the claim states it, fails. With forty-nine years and the first/last checkbox
  checked, two years are retained, 1975 and 2023. For the older one the claim gives the
  opacity for \<open>N = 2\<close> and index 0, which is 0.4 (in doubles as over the reals); the
  code computes it from \<open>N = 49\<close>, all years, and the result is the next double above
  the double 0.4.
\<close>

theorem retained_years_opacity_counterexample:
  "year_datasets True True False fortynine_years =
     Inr [min_dataset \<lparr>minTemps = [Num 1], maxTemps = [Num 9]\<rparr> 49 0 ''1975'',
          min_dataset \<lparr>minTemps = [Num 1], maxTemps = [Num 9]\<rparr> 49 48 ''2023'']
   \<and> alpha (borderColor (min_dataset \<lparr>minTemps = [Num 1], maxTemps = [Num 9]\<rparr> 49 0 ''1975''))
       = 7205759403792795 / 18014398509481984
   \<and> fl (fl (fl (1 - fl (fl (1 / real 2) * (real 2 - real 0))) * fl 0.6) + fl 0.4)
       = 3602879701896397 / 9007199254740992
   \<and> (7205759403792795 / 18014398509481984 :: real) \<noteq> 3602879701896397 / 9007199254740992
   \<and> (7205759403792795 / 18014398509481984 :: real) \<noteq> (1 - (1 / 2) * (2 - 0)) * 0.6 + 0.4"
proof -
  have "alpha (borderColor (min_dataset \<lparr>minTemps = [Num 1], maxTemps = [Num 9]\<rparr> 49 0 ''1975''))
          = opacity 49 0"
    by (simp add: min_dataset_def)
  then have a: "alpha (borderColor (min_dataset \<lparr>minTemps = [Num 1], maxTemps = [Num 9]\<rparr> 49 0 ''1975''))
             = 7205759403792795 / 18014398509481984"
    by (simp only: opacity_49_0)
  have "opacity 2 0 = fl (fl (fl (1 - fl (fl (1 / real 2) * (real 2 - real 0))) * fl 0.6) + fl 0.4)"
    by (rule opacity_unfold) simp
  then have b: "fl (fl (fl (1 - fl (fl (1 / real 2) * (real 2 - real 0))) * fl 0.6) + fl 0.4)
                  = 3602879701896397 / 9007199254740992"
    by (simp only: opacity_2_0)
  have c: "(7205759403792795 / 18014398509481984 :: real) \<noteq> 3602879701896397 / 9007199254740992"
    by simp
  have e: "(7205759403792795 / 18014398509481984 :: real) \<noteq> (1 - (1 / 2) * (2 - 0)) * 0.6 + 0.4"
    by simp
  from fortynine_datasets a b c e show ?thesis by blast
qed

text \<open>
  C3, amended. Let \<open>N\<close> be the number of all years present (\<^verbatim>\<open>years.length\<close>, counted
  before the first/last filter). Every dataset of the stacked view belongs to a year at
  some position \<open>index\<close> of the ascending list of these \<open>N\<close> years; its opacity is 1 when
  that year is the most recent one (\<open>index = N - 1\<close>), else
  \<open>(1 - (1 / N) * (N - index)) * 0.6 + 0.4\<close> computed in double arithmetic, and it is
  at least 0.4.
\<close>

theorem stacked_opacity:
  assumes "year_datasets fc mc xc yd = Inr ds" and "d \<in> set ds"
  shows "\<exists>index < length (sort (map fst yd)).
           (label d = ''Min Temp '' @ sort (map fst yd) ! index
            \<or> label d = ''Max Temp '' @ sort (map fst yd) ! index)
           \<and> alpha (borderColor d) =
               (if index = length (sort (map fst yd)) - 1 then 1
                else fl (fl (fl (1 - fl (fl (1 / real (length (sort (map fst yd))))
                                          * (real (length (sort (map fst yd))) - real index)))
                             * fl 0.6) + fl 0.4))
           \<and> 0.4 \<le> alpha (borderColor d)"
proof -
  define years where "years = sort (map fst yd)"
  define N where "N = length years"
  let ?mins = "map (\<lambda>(i, y). min_dataset (the (map_of yd y)) N i y)
                 (filter (\<lambda>(i, y). mc \<and> (fc \<longrightarrow> isFirstOrLast N i)) (enumerate 0 years))"
  let ?maxs = "map (\<lambda>(i, y). max_dataset (the (map_of yd y)) N i y)
                 (filter (\<lambda>(i, y). xc \<and> (fc \<longrightarrow> isFirstOrLast N i)) (enumerate 0 years))"
  have "ds = ?mins @ ?maxs"
    using assms(1) year_datasets_eq [of fc mc xc yd] by (simp add: years_def N_def)
  with assms(2) have "d \<in> set ?mins \<or> d \<in> set ?maxs" by simp
  then obtain i y where iy: "(i, y) \<in> set (enumerate 0 years)"
    and d: "d = min_dataset (the (map_of yd y)) N i y \<or> d = max_dataset (the (map_of yd y)) N i y"
    by auto
  from iy have i: "i < N" and y: "y = years ! i"
    by (auto simp: in_set_enumerate_eq N_def)
  have last_iff: "(int i = int N - 1) = (i = N - 1)"
    using i by auto
  have lab: "label d = ''Min Temp '' @ years ! i \<or> label d = ''Max Temp '' @ years ! i"
    using d y by (auto simp: min_dataset_def max_dataset_def)
  have al: "alpha (borderColor d) = opacity N i"
    using d by (auto simp: min_dataset_def max_dataset_def opacity_last)
  have formula: "opacity N i =
      (if i = N - 1 then 1
       else fl (fl (fl (1 - fl (fl (1 / real N) * (real N - real i))) * fl 0.6) + fl 0.4))"
  proof (cases "i = N - 1")
    case True
    then show ?thesis using last_iff by (simp add: opacity_last)
  next
    case False
    then have "int i \<noteq> int N - 1" using last_iff by simp
    from opacity_unfold [OF this] False show ?thesis by simp
  qed
  have low: "0.4 \<le> alpha (borderColor d)"
    using opacity_lower [OF i] al by simp
  show ?thesis
    unfolding years_def [symmetric] N_def [symmetric]
    using i lab al formula low by (intro exI [of _ i]) simp
qed

lemma three_years_datasets:
  "year_datasets False True False three_years =
     Inr [min_dataset \<lparr>minTemps = [Null], maxTemps = [Num 7]\<rparr> 3 0 ''2019'',
          min_dataset \<lparr>minTemps = [Num 2], maxTemps = [Num 8]\<rparr> 3 1 ''2020'',
          min_dataset \<lparr>minTemps = [Num 1], maxTemps = [Num 9]\<rparr> 3 2 ''2021'']"
  by (simp add: year_datasets_def three_years_def enumerate_eq_zip upt_rec_numeral
      min_year_def max_year_def isFirstOrLast_def Let_def eval_nat_numeral)

theorem stacked_opacity_witness:
  "year_datasets False True False three_years =
     Inr [min_dataset \<lparr>minTemps = [Null], maxTemps = [Num 7]\<rparr> 3 0 ''2019'',
          min_dataset \<lparr>minTemps = [Num 2], maxTemps = [Num 8]\<rparr> 3 1 ''2020'',
          min_dataset \<lparr>minTemps = [Num 1], maxTemps = [Num 9]\<rparr> 3 2 ''2021'']
   \<and> alpha (borderColor (min_dataset \<lparr>minTemps = [Num 2], maxTemps = [Num 8]\<rparr> 3 1 ''2020''))
       = 1351079888211149 / 2251799813685248
   \<and> (0.4::real) \<le> alpha (borderColor (min_dataset \<lparr>minTemps = [Num 2], maxTemps = [Num 8]\<rparr> 3 1 ''2020''))"
proof -
  let ?d = "min_dataset \<lparr>minTemps = [Num 2], maxTemps = [Num 8]\<rparr> 3 1 ''2020''"
  have mem: "?d \<in> set [min_dataset \<lparr>minTemps = [Null], maxTemps = [Num 7]\<rparr> 3 0 ''2019'', ?d,
                        min_dataset \<lparr>minTemps = [Num 1], maxTemps = [Num 9]\<rparr> 3 2 ''2021'']"
    by simp
  from stacked_opacity [OF three_years_datasets mem]
  have low: "0.4 \<le> alpha (borderColor ?d)" by blast
  have "alpha (borderColor ?d) = opacity 3 1"
    by (simp add: min_dataset_def)
  then have val: "alpha (borderColor ?d) = 1351079888211149 / 2251799813685248"
    by (simp only: opacity_3_1)
  from three_years_datasets val low show ?thesis by blast
qed

section \<open>The keys of the yearly data\<close>

lemma init_year_keys:
  "map fst (init_year mom t yd) =
     (if moment_format_YYYY (mom t) \<in> set (map fst yd) then map fst yd
      else map fst yd @ [moment_format_YYYY (mom t)])"
  by (simp add: init_year_def Let_def map_of_eq_None_iff)

lemma fold_init_year_keys:
  "set (map fst (fold (init_year mom) dates yd)) =
     set (map fst yd) \<union> (\<lambda>t. moment_format_YYYY (mom t)) ` set dates"
proof (induction dates arbitrary: yd)
  case Nil
  then show ?case by simp
next
  case (Cons t dates)
  have "set (map fst (init_year mom t yd)) = insert (moment_format_YYYY (mom t)) (set (map fst yd))"
    unfolding init_year_keys by auto
  then show ?case
    using Cons.IH [of "init_year mom t yd"] by auto
qed

lemma fold_init_year_distinct:
  assumes "distinct (map fst yd)"
  shows "distinct (map fst (fold (init_year mom) dates yd))"
  using assms
proof (induction dates arbitrary: yd)
  case Nil
  then show ?case by simp
next
  case (Cons t dates)
  have "distinct (map fst (init_year mom t yd))"
    unfolding init_year_keys using Cons.prems by auto
  then show ?case
    using Cons.IH [of "init_year mom t yd"] by simp
qed

lemma populate_year_step:
  assumes "map_of yd (moment_format_YYYY (mom t)) = Some b"
  shows "populate_year mom mn mx (i, t) yd =
           Inr (AList.update (moment_format_YYYY (mom t))
                  \<lparr>minTemps = js_set (minTemps b) (map_option (\<lambda>n. n - 1) (moment_dayOfYear (mom t))) (js_get mn i),
                   maxTemps = js_set (maxTemps b) (map_option (\<lambda>n. n - 1) (moment_dayOfYear (mom t))) (js_get mx i)\<rparr>
                  yd)"
  using assms by (simp add: populate_year_def Let_def)





section \<open>The buckets of the yearly data\<close>

lemma month_cases:
  assumes "m < (12::nat)"
  shows "m = 0 \<or> m = 1 \<or> m = 2 \<or> m = 3 \<or> m = 4 \<or> m = 5 \<or> m = 6 \<or> m = 7 \<or> m = 8
         \<or> m = 9 \<or> m = 10 \<or> m = 11"
  using assms by arith

lemma months_before:
  "[0..<1] = [0::nat]"
  "[0..<2] = [0, 1::nat]"
  "[0..<3] = [0, 1, 2::nat]"
  "[0..<4] = [0, 1, 2, 3::nat]"
  "[0..<5] = [0, 1, 2, 3, 4::nat]"
  "[0..<6] = [0, 1, 2, 3, 4, 5::nat]"
  "[0..<7] = [0, 1, 2, 3, 4, 5, 6::nat]"
  "[0..<8] = [0, 1, 2, 3, 4, 5, 6, 7::nat]"
  "[0..<9] = [0, 1, 2, 3, 4, 5, 6, 7, 8::nat]"
  "[0..<10] = [0, 1, 2, 3, 4, 5, 6, 7, 8, 9::nat]"
  "[0..<11] = [0, 1, 2, 3, 4, 5, 6, 7, 8, 9, 10::nat]"
  by code_simp+

lemma days_up_to_month:
  assumes "m < 12"
  shows "sum_list (map (daysInMonth y) [0..<m]) + daysInMonth y m \<le> 366"
  using month_cases [OF assms]
  by (elim disjE) (simp_all add: daysInMonth_def months_before)

lemma dayOfYear_bounds:
  assumes "valid_moment d"
  shows "1 \<le> dayOfYear d" and "dayOfYear d \<le> 366"
proof -
  from assms have m: "mMonth d < 12" and lo: "1 \<le> mDate d"
    and hi: "mDate d \<le> daysInMonth (mYear d) (mMonth d)"
    by (simp_all add: valid_moment_def)
  show "1 \<le> dayOfYear d"
    using lo by (simp add: dayOfYear_def)
  show "dayOfYear d \<le> 366"
    using days_up_to_month [OF m, of "mYear d"] hi by (simp add: dayOfYear_def)
qed

lemma length_js_set:
  assumes "length xs = 365 \<or> length xs = 366" and "1 \<le> n" and "n \<le> 366"
  shows "length (js_set xs (Some (int n - 1)) v) = (if length xs = 366 \<or> n = 366 then 366 else 365)"
  using assms by (auto simp: js_set_def)

lemma set_js_set:
  assumes "Undefined \<notin> set xs" and "v \<noteq> Undefined"
    and "length xs = 365 \<or> length xs = 366" and "1 \<le> n" and "n \<le> 366"
  shows "Undefined \<notin> set (js_set xs (Some (int n - 1)) v)"
proof (cases "nat (int n - 1) < length xs")
  case True
  then have "js_set xs (Some (int n - 1)) v = xs[nat (int n - 1) := v]"
    using assms(4) by (simp add: js_set_def)
  moreover have "set (xs[nat (int n - 1) := v]) \<subseteq> insert v (set xs)"
    by (rule set_update_subset_insert)
  ultimately show ?thesis using assms(1,2) by auto
next
  case False
  then have "nat (int n - 1) = length xs"
    using assms(3,4,5) by auto
  then have "js_set xs (Some (int n - 1)) v = xs @ [v]"
    using assms(4) by (simp add: js_set_def)
  then show ?thesis using assms(1,2) by simp
qed

lemma js_get_defined:
  assumes "Undefined \<notin> set xs" and "i < length xs"
  shows "js_get xs i \<noteq> Undefined"
proof -
  have "xs ! i \<in> set xs" using assms(2) by (rule nth_mem)
  with assms(1) have "xs ! i \<noteq> Undefined" by metis
  then show ?thesis using assms(2) by (simp add: js_get_def)
qed

lemma nth_js_set_last:
  assumes "length xs = 365 \<or> length xs = 366" and "1 \<le> n" and "n \<le> 366"
  shows "js_set xs (Some (int n - 1)) v ! 365 = (if n = 366 then v else xs ! 365)"
proof (cases "n = 366")
  case True
  show ?thesis
    using assms(1) by (auto simp: js_set_def True nth_append)
next
  case False
  then have "nat (int n - 1) < 365" using assms(2,3) by auto
  then show ?thesis
    using assms False by (auto simp: js_set_def)
qed

lemma populate_buckets:
  fixes mom :: "string \<Rightarrow> moment option"
  assumes "\<forall>t\<in>set ds. \<exists>d. mom t = Some d \<and> valid_moment d"
    and "\<forall>t\<in>set ds. moment_format_YYYY (mom t) \<in> set (map fst yd)"
    and "k + length ds \<le> length mn" and "k + length ds \<le> length mx"
    and "Undefined \<notin> set mn" and "Undefined \<notin> set mx"
    and "\<forall>y b. map_of yd y = Some b \<longrightarrow> bucket_ok b"
  shows "\<exists>yd'. forEach (populate_year mom mn mx) (enumerate k ds) yd = Inr yd'
           \<and> map fst yd' = map fst yd
           \<and> (\<forall>y b'. map_of yd' y = Some b' \<longrightarrow>
                 (\<exists>b. map_of yd y = Some b
                    \<and> length (minTemps b') =
                        (if length (minTemps b) = 366
                            \<or> (\<exists>t\<in>set ds. moment_format_YYYY (mom t) = y
                                   \<and> moment_dayOfYear (mom t) = Some 366)
                         then 366 else 365)
                    \<and> bucket_ok b'
                    \<and> (if \<exists>t\<in>set ds. moment_format_YYYY (mom t) = y
                                   \<and> moment_dayOfYear (mom t) = Some 366
                       then \<exists>i<length ds. moment_format_YYYY (mom (ds ! i)) = y
                              \<and> moment_dayOfYear (mom (ds ! i)) = Some 366
                              \<and> minTemps b' ! 365 = js_get mn (k + i)
                              \<and> maxTemps b' ! 365 = js_get mx (k + i)
                       else minTemps b' ! 365 = minTemps b ! 365
                              \<and> maxTemps b' ! 365 = maxTemps b ! 365)))"
  using assms
proof (induction ds arbitrary: k yd)
  case Nil
  have "\<exists>b. map_of yd y = Some b
        \<and> length (minTemps b') =
            (if length (minTemps b) = 366
                \<or> (\<exists>t\<in>set []. moment_format_YYYY (mom t) = y \<and> moment_dayOfYear (mom t) = Some 366)
             then 366 else 365)
        \<and> bucket_ok b'
        \<and> (if \<exists>t\<in>set []. moment_format_YYYY (mom t) = y \<and> moment_dayOfYear (mom t) = Some 366
           then \<exists>i<length []. moment_format_YYYY (mom ([] ! i)) = y
                  \<and> moment_dayOfYear (mom ([] ! i)) = Some 366
                  \<and> minTemps b' ! 365 = js_get mn (k + i)
                  \<and> maxTemps b' ! 365 = js_get mx (k + i)
           else minTemps b' ! 365 = minTemps b ! 365 \<and> maxTemps b' ! 365 = maxTemps b ! 365)"
    if "map_of yd y = Some b'" for y b'
  proof -
    from Nil.prems(7) that have "bucket_ok b'" by blast
    then show ?thesis using that by (auto simp: bucket_ok_def)
  qed
  then show ?case by simp
next
  case (Cons t ds)
  let ?y = "moment_format_YYYY (mom t)"
  from Cons.prems(1) obtain d where d: "mom t = Some d" "valid_moment d" by auto
  let ?n = "dayOfYear d"
  have n: "1 \<le> ?n" "?n \<le> 366"
    using dayOfYear_bounds [OF d(2)] by simp_all
  have idx: "map_option (\<lambda>n. n - 1) (moment_dayOfYear (mom t)) = Some (int ?n - 1)"
    by (simp add: moment_dayOfYear_def d(1))
  have doy: "moment_dayOfYear (mom t) = Some 366 \<longleftrightarrow> ?n = 366"
    by (simp add: moment_dayOfYear_def d(1))
  have key: "?y \<in> set (map fst yd)" using Cons.prems(2) by simp
  then obtain b where b: "map_of yd ?y = Some b"
    by (cases "map_of yd ?y") (auto simp: map_of_eq_None_iff)
  from Cons.prems(7) b have "bucket_ok b" by blast
  then have bok:
    "length (minTemps b) = 365 \<or> length (minTemps b) = 366"
    "length (maxTemps b) = length (minTemps b)"
    "Undefined \<notin> set (minTemps b)" "Undefined \<notin> set (maxTemps b)"
    by (simp_all add: bucket_ok_def)
  have vmn: "js_get mn k \<noteq> Undefined"
    using Cons.prems(3,5) by (intro js_get_defined) simp_all
  have vmx: "js_get mx k \<noteq> Undefined"
    using Cons.prems(4,6) by (intro js_get_defined) simp_all
  let ?mins = "js_set (minTemps b) (Some (int ?n - 1)) (js_get mn k)"
  let ?maxs = "js_set (maxTemps b) (Some (int ?n - 1)) (js_get mx k)"
  let ?b = "\<lparr>minTemps = ?mins, maxTemps = ?maxs\<rparr>"
  let ?yd = "AList.update ?y ?b yd"
  have lmin: "length ?mins = (if length (minTemps b) = 366 \<or> ?n = 366 then 366 else 365)"
    using bok(1) n by (rule length_js_set)
  have lmax: "length ?maxs = (if length (minTemps b) = 366 \<or> ?n = 366 then 366 else 365)"
    using length_js_set [of "maxTemps b" ?n "js_get mx k"] bok(1,2) n by simp
  have umin: "Undefined \<notin> set ?mins"
    using bok(3) vmn bok(1) n by (rule set_js_set)
  have umax: "Undefined \<notin> set ?maxs"
    using set_js_set [of "maxTemps b" "js_get mx k" ?n] bok(1,2,4) vmx n by simp
  have smin: "?mins ! 365 = (if ?n = 366 then js_get mn k else minTemps b ! 365)"
    using bok(1) n by (rule nth_js_set_last)
  have smax: "?maxs ! 365 = (if ?n = 366 then js_get mx k else maxTemps b ! 365)"
    using nth_js_set_last [of "maxTemps b" ?n "js_get mx k"] bok(1,2) n by simp
  have newok: "bucket_ok ?b"
    using lmin lmax umin umax by (simp add: bucket_ok_def)
  have step: "populate_year mom mn mx (k, t) yd = Inr ?yd"
    using populate_year_step [where yd = yd and mom = mom and t = t and b = b and mn = mn and mx = mx and i = k] b
    by (simp add: idx)
  have keys1: "map fst ?yd = map fst yd"
    using key by (simp add: update_keys)
  have lookup: "map_of ?yd = (map_of yd)(?y \<mapsto> ?b)"
    by (rule update_conv')
  have valid1: "\<forall>s\<in>set ds. \<exists>d. mom s = Some d \<and> valid_moment d"
    using Cons.prems(1) by simp
  have present1: "\<forall>s\<in>set ds. moment_format_YYYY (mom s) \<in> set (map fst ?yd)"
    unfolding keys1 using Cons.prems(2) by simp
  have lens1: "Suc k + length ds \<le> length mn" "Suc k + length ds \<le> length mx"
    using Cons.prems(3,4) by simp_all
  have inv1: "\<forall>y c. map_of ?yd y = Some c \<longrightarrow> bucket_ok c"
    using Cons.prems(7) newok by (auto simp: lookup)
  from Cons.IH [OF valid1 present1 lens1 Cons.prems(5,6) inv1] obtain yd' where
    run: "forEach (populate_year mom mn mx) (enumerate (Suc k) ds) ?yd = Inr yd'"
    and keys': "map fst yd' = map fst ?yd"
    and post: "\<forall>y b'. map_of yd' y = Some b' \<longrightarrow>
        (\<exists>c. map_of ?yd y = Some c
          \<and> length (minTemps b') =
              (if length (minTemps c) = 366
                  \<or> (\<exists>s\<in>set ds. moment_format_YYYY (mom s) = y \<and> moment_dayOfYear (mom s) = Some 366)
               then 366 else 365)
          \<and> bucket_ok b'
          \<and> (if \<exists>s\<in>set ds. moment_format_YYYY (mom s) = y \<and> moment_dayOfYear (mom s) = Some 366
             then \<exists>i<length ds. moment_format_YYYY (mom (ds ! i)) = y
                    \<and> moment_dayOfYear (mom (ds ! i)) = Some 366
                    \<and> minTemps b' ! 365 = js_get mn (Suc k + i)
                    \<and> maxTemps b' ! 365 = js_get mx (Suc k + i)
             else minTemps b' ! 365 = minTemps c ! 365 \<and> maxTemps b' ! 365 = maxTemps c ! 365))"
    by blast
  have run': "forEach (populate_year mom mn mx) (enumerate k (t # ds)) yd = Inr yd'"
    by (simp add: step run)
  have post': "\<exists>b0. map_of yd y = Some b0
          \<and> length (minTemps b') =
              (if length (minTemps b0) = 366
                  \<or> (\<exists>s\<in>set (t # ds). moment_format_YYYY (mom s) = y \<and> moment_dayOfYear (mom s) = Some 366)
               then 366 else 365)
          \<and> bucket_ok b'
          \<and> (if \<exists>s\<in>set (t # ds). moment_format_YYYY (mom s) = y \<and> moment_dayOfYear (mom s) = Some 366
             then \<exists>i<length (t # ds). moment_format_YYYY (mom ((t # ds) ! i)) = y
                    \<and> moment_dayOfYear (mom ((t # ds) ! i)) = Some 366
                    \<and> minTemps b' ! 365 = js_get mn (k + i)
                    \<and> maxTemps b' ! 365 = js_get mx (k + i)
             else minTemps b' ! 365 = minTemps b0 ! 365 \<and> maxTemps b' ! 365 = maxTemps b0 ! 365)"
    if b': "map_of yd' y = Some b'" for y b'
  proof -
    let ?later = "\<exists>s\<in>set ds. moment_format_YYYY (mom s) = y \<and> moment_dayOfYear (mom s) = Some 366"
    let ?any = "\<exists>s\<in>set (t # ds). moment_format_YYYY (mom s) = y \<and> moment_dayOfYear (mom s) = Some 366"
    let ?slot = "\<lambda>i. moment_format_YYYY (mom ((t # ds) ! i)) = y
                    \<and> moment_dayOfYear (mom ((t # ds) ! i)) = Some 366
                    \<and> minTemps b' ! 365 = js_get mn (k + i)
                    \<and> maxTemps b' ! 365 = js_get mx (k + i)"
    from post b' obtain c where c: "map_of ?yd y = Some c"
      and lc: "length (minTemps b') = (if length (minTemps c) = 366 \<or> ?later then 366 else 365)"
      and rest: "bucket_ok b'"
      and slot: "if ?later
             then \<exists>i<length ds. moment_format_YYYY (mom (ds ! i)) = y
                    \<and> moment_dayOfYear (mom (ds ! i)) = Some 366
                    \<and> minTemps b' ! 365 = js_get mn (Suc k + i)
                    \<and> maxTemps b' ! 365 = js_get mx (Suc k + i)
             else minTemps b' ! 365 = minTemps c ! 365 \<and> maxTemps b' ! 365 = maxTemps c ! 365"
      by blast
    have shift: "\<exists>i<length (t # ds). ?slot i" if ?later
    proof -
      from slot that obtain i where "i < length ds" "moment_format_YYYY (mom (ds ! i)) = y"
        "moment_dayOfYear (mom (ds ! i)) = Some 366"
        "minTemps b' ! 365 = js_get mn (Suc k + i)" "maxTemps b' ! 365 = js_get mx (Suc k + i)"
        by auto
      then have "Suc i < length (t # ds)" "?slot (Suc i)" by simp_all
      then show ?thesis by blast
    qed
    show ?thesis
    proof (cases "y = ?y")
      case True
      with c have cb: "c = ?b" by (simp add: lookup)
      have "length (minTemps c) = 366 \<longleftrightarrow> length (minTemps b) = 366 \<or> ?n = 366"
        using lmin by (simp add: cb)
      with lc have len: "length (minTemps b') =
              (if length (minTemps b) = 366 \<or> ?any then 366 else 365)"
        using True doy by auto
      have any: "?any \<longleftrightarrow> ?n = 366 \<or> ?later"
        using True doy by auto
      have slots: "if ?any then \<exists>i<length (t # ds). ?slot i
                   else minTemps b' ! 365 = minTemps b ! 365 \<and> maxTemps b' ! 365 = maxTemps b ! 365"
      proof (cases ?later)
        case True
        with shift any show ?thesis by simp
      next
        case False
        with slot have keep: "minTemps b' ! 365 = ?mins ! 365" "maxTemps b' ! 365 = ?maxs ! 365"
          by (simp_all add: cb)
        show ?thesis
        proof (cases "?n = 366")
          case True
          have "0 < length (t # ds)" "?slot 0"
            using keep smin smax True \<open>y = ?y\<close> doy by simp_all
          then have "\<exists>i<length (t # ds). ?slot i" by blast
          with any True show ?thesis by simp
        next
          case False
          with \<open>\<not> ?later\<close> any have none: "\<not> ?any" by simp
          have "minTemps b' ! 365 = minTemps b ! 365 \<and> maxTemps b' ! 365 = maxTemps b ! 365"
            using keep smin smax False by simp
          then show ?thesis
            unfolding if_not_P [OF none] .
        qed
      qed
      from b rest True len slots show ?thesis by blast
    next
      case False
      with c have c0: "map_of yd y = Some c" by (simp add: lookup)
      have any: "?any \<longleftrightarrow> ?later"
        using False by auto
      have len: "length (minTemps b') = (if length (minTemps c) = 366 \<or> ?any then 366 else 365)"
        using lc any by simp
      have slots: "if ?any then \<exists>i<length (t # ds). ?slot i
                   else minTemps b' ! 365 = minTemps c ! 365 \<and> maxTemps b' ! 365 = maxTemps c ! 365"
      proof (cases ?later)
        case True
        with shift any show ?thesis by simp
      next
        case False
        with any have none: "\<not> ?any" by blast
        from slot False
        have "minTemps b' ! 365 = minTemps c ! 365 \<and> maxTemps b' ! 365 = maxTemps c ! 365"
          by simp
        then show ?thesis
          unfolding if_not_P [OF none] .
      qed
      from c0 rest len slots show ?thesis by blast
    qed
  qed
  show ?case
    using run' keys' keys1 post' by (intro exI [of _ yd']) simp
qed

lemma fold_init_year_fresh:
  assumes "\<forall>(y, b)\<in>set yd. minTemps b = replicate 365 Null \<and> maxTemps b = replicate 365 Null"
  shows "\<forall>(y, b)\<in>set (fold (init_year mom) dates yd).
           minTemps b = replicate 365 Null \<and> maxTemps b = replicate 365 Null"
  using assms
proof (induction dates arbitrary: yd)
  case Nil
  then show ?case by simp
next
  case (Cons t dates)
  have "\<forall>(y, b)\<in>set (init_year mom t yd).
          minTemps b = replicate 365 Null \<and> maxTemps b = replicate 365 Null"
    using Cons.prems by (auto simp: init_year_def Let_def)
  from Cons.IH [OF this] show ?case by simp
qed

lemma moment_utc_examples:
  "moment_utc ''2020-12-31T00:00+00:00'' = Some \<lparr>mYear = 2020, mMonth = 11, mDate = 31\<rparr>"
  "moment_utc ''2021-01-02T00:00+00:00'' = Some \<lparr>mYear = 2021, mMonth = 0, mDate = 2\<rparr>"
  by (simp_all add: moment_utc_def parse_nat_def valid_moment_def daysInMonth_def)

lemma valid_moment_examples:
  "valid_moment \<lparr>mYear = 2020, mMonth = 11, mDate = 31\<rparr>"
  "valid_moment \<lparr>mYear = 2021, mMonth = 0, mDate = 2\<rparr>"
  by (simp_all add: valid_moment_def daysInMonth_def)

lemma dayOfYear_examples:
  "dayOfYear \<lparr>mYear = 2020, mMonth = 11, mDate = 31\<rparr> = 366"
  "dayOfYear \<lparr>mYear = 2021, mMonth = 0, mDate = 2\<rparr> = 2"
  by (simp_all add: dayOfYear_def daysInMonth_def isLeapYear_def months_before)

lemma format_YYYY_examples:
  "format_YYYY \<lparr>mYear = 2020, mMonth = 11, mDate = 31\<rparr> = ''2020''"
  "format_YYYY \<lparr>mYear = 2021, mMonth = 0, mDate = 2\<rparr> = ''2021''"
  by (simp_all add: format_YYYY_def toString.simps padStart_def digit_def)

text \<open>
  C1, as the claim states it, fails: a sample on 31 December of the leap year 2020 has day
  of the year 366, and the write at index 365 makes both buckets of 2020 one slot longer,
  the sample's values in the new last slot.
\<close>

theorem leap_year_bucket_counterexample:
  "moment_dayOfYear (moment_utc ''2020-12-31T00:00+00:00'') = Some 366
   \<and> yearly_data moment_utc [''2020-12-31T00:00+00:00''] [Num 5] [Num 9] =
       Inr [(''2020'', \<lparr>minTemps = replicate 365 Null @ [Num 5],
                        maxTemps = replicate 365 Null @ [Num 9]\<rparr>)]
   \<and> length (replicate 365 Null @ [Num 5]) \<noteq> 365"
  by (simp add: yearly_data_def init_year_def populate_year_def moment_format_YYYY_def
      moment_dayOfYear_def moment_utc_examples dayOfYear_examples format_YYYY_examples
      js_set_def js_get_def enumerate_eq_zip)

text \<open>
  C1, amended. For timestamps that parse to valid moments and data arrays as long as the
  timestamps, holding numbers or \<^verbatim>\<open>null\<close>, the transform yields one entry per calendar
  year present. The minimum and maximum bucket of a year have the same length: 365 when
  no sample of that year has day of the year 366, and 366 when one has. Every slot holds a
  number or \<^verbatim>\<open>null\<close>. A sample with day of the year 366 is not dropped: slot 365 of its
  year's buckets holds the values of such a sample.
\<close>

theorem yearly_data_buckets:
  assumes "length mn = length dates" and "length mx = length dates"
    and "Undefined \<notin> set mn" and "Undefined \<notin> set mx"
    and "\<forall>t\<in>set dates. \<exists>d. mom t = Some d \<and> valid_moment d"
  shows "\<exists>yd. yearly_data mom dates mn mx = Inr yd
           \<and> distinct (map fst yd)
           \<and> set (map fst yd) = (\<lambda>t. moment_format_YYYY (mom t)) ` set dates
           \<and> (\<forall>(y, b)\<in>set yd.
                 length (minTemps b) =
                   (if \<exists>t\<in>set dates. moment_format_YYYY (mom t) = y
                                      \<and> moment_dayOfYear (mom t) = Some 366
                    then 366 else 365)
                 \<and> length (maxTemps b) = length (minTemps b)
                 \<and> Undefined \<notin> set (minTemps b) \<and> Undefined \<notin> set (maxTemps b)
                 \<and> ((\<exists>t\<in>set dates. moment_format_YYYY (mom t) = y
                                      \<and> moment_dayOfYear (mom t) = Some 366)
                      \<longrightarrow> (\<exists>i<length dates. moment_format_YYYY (mom (dates ! i)) = y
                              \<and> moment_dayOfYear (mom (dates ! i)) = Some 366
                              \<and> minTemps b ! 365 = mn ! i
                              \<and> maxTemps b ! 365 = mx ! i)))"
proof -
  let ?init = "fold (init_year mom) dates []"
  let ?leap = "\<lambda>y. \<exists>t\<in>set dates. moment_format_YYYY (mom t) = y
                        \<and> moment_dayOfYear (mom t) = Some 366"
  have fresh: "\<forall>(y, b)\<in>set ?init. minTemps b = replicate 365 Null \<and> maxTemps b = replicate 365 Null"
    by (rule fold_init_year_fresh) simp
  have fresh_lookup: "minTemps b = replicate 365 Null \<and> maxTemps b = replicate 365 Null"
    if "map_of ?init y = Some b" for y b
    using fresh map_of_SomeD [OF that] by auto
  have present: "\<forall>t\<in>set dates. moment_format_YYYY (mom t) \<in> set (map fst ?init)"
    unfolding fold_init_year_keys by simp
  have lens: "0 + length dates \<le> length mn" "0 + length dates \<le> length mx"
    using assms(1,2) by simp_all
  have inv: "\<forall>y b. map_of ?init y = Some b \<longrightarrow> bucket_ok b"
    using fresh_lookup by (auto simp: bucket_ok_def)
  from populate_buckets [OF assms(5) present lens assms(3,4) inv] obtain yd where
    run: "forEach (populate_year mom mn mx) (enumerate 0 dates) ?init = Inr yd"
    and keys: "map fst yd = map fst ?init"
    and post: "\<forall>y b'. map_of yd y = Some b' \<longrightarrow>
        (\<exists>b. map_of ?init y = Some b
          \<and> length (minTemps b') = (if length (minTemps b) = 366 \<or> ?leap y then 366 else 365)
          \<and> bucket_ok b'
          \<and> (if ?leap y
             then \<exists>i<length dates. moment_format_YYYY (mom (dates ! i)) = y
                    \<and> moment_dayOfYear (mom (dates ! i)) = Some 366
                    \<and> minTemps b' ! 365 = js_get mn (0 + i)
                    \<and> maxTemps b' ! 365 = js_get mx (0 + i)
             else minTemps b' ! 365 = minTemps b ! 365 \<and> maxTemps b' ! 365 = maxTemps b ! 365))"
    by blast
  have res: "yearly_data mom dates mn mx = Inr yd"
    by (simp add: yearly_data_def run)
  have "distinct (map fst ?init)"
    by (rule fold_init_year_distinct) simp
  then have dist: "distinct (map fst yd)"
    by (simp only: keys)
  have "set (map fst ?init) = (\<lambda>t. moment_format_YYYY (mom t)) ` set dates"
    unfolding fold_init_year_keys by simp
  then have years: "set (map fst yd) = (\<lambda>t. moment_format_YYYY (mom t)) ` set dates"
    by (simp only: keys)
  have buckets: "length (minTemps b') = (if ?leap y then 366 else 365)
                 \<and> length (maxTemps b') = length (minTemps b')
                 \<and> Undefined \<notin> set (minTemps b') \<and> Undefined \<notin> set (maxTemps b')
                 \<and> (?leap y \<longrightarrow> (\<exists>i<length dates. moment_format_YYYY (mom (dates ! i)) = y
                              \<and> moment_dayOfYear (mom (dates ! i)) = Some 366
                              \<and> minTemps b' ! 365 = mn ! i
                              \<and> maxTemps b' ! 365 = mx ! i))"
    if mem: "(y, b') \<in> set yd" for y b'
  proof -
    have "map_of yd y = Some b'"
      using dist mem by simp
    with post obtain b where b: "map_of ?init y = Some b"
      and len: "length (minTemps b') = (if length (minTemps b) = 366 \<or> ?leap y then 366 else 365)"
      and ok: "bucket_ok b'"
      and slot: "if ?leap y
             then \<exists>i<length dates. moment_format_YYYY (mom (dates ! i)) = y
                    \<and> moment_dayOfYear (mom (dates ! i)) = Some 366
                    \<and> minTemps b' ! 365 = js_get mn (0 + i)
                    \<and> maxTemps b' ! 365 = js_get mx (0 + i)
             else minTemps b' ! 365 = minTemps b ! 365 \<and> maxTemps b' ! 365 = maxTemps b ! 365"
      by blast
    have "length (minTemps b) = 365"
      using fresh_lookup [OF b] by simp
    with len have len': "length (minTemps b') = (if ?leap y then 366 else 365)"
      by simp
    have last: "\<exists>i<length dates. moment_format_YYYY (mom (dates ! i)) = y
                  \<and> moment_dayOfYear (mom (dates ! i)) = Some 366
                  \<and> minTemps b' ! 365 = mn ! i \<and> maxTemps b' ! 365 = mx ! i"
      if "?leap y"
    proof -
      from slot that obtain i where i: "i < length dates"
        "moment_format_YYYY (mom (dates ! i)) = y" "moment_dayOfYear (mom (dates ! i)) = Some 366"
        "minTemps b' ! 365 = js_get mn (0 + i)" "maxTemps b' ! 365 = js_get mx (0 + i)"
        by auto
      have "js_get mn (0 + i) = mn ! i" "js_get mx (0 + i) = mx ! i"
        using i(1) assms(1,2) by (simp_all add: js_get_def)
      with i show ?thesis by auto
    qed
    from ok have "length (maxTemps b') = length (minTemps b')"
      "Undefined \<notin> set (minTemps b')" "Undefined \<notin> set (maxTemps b')"
      by (simp_all add: bucket_ok_def)
    with len' last show ?thesis by blast
  qed
  from res dist years buckets show ?thesis by blast
qed

theorem yearly_data_buckets_witness:
  "\<exists>yd. yearly_data moment_utc [''2020-12-31T00:00+00:00'', ''2021-01-02T00:00+00:00'']
            [Num 5, Num 1] [Num 9, Null] = Inr yd
     \<and> set (map fst yd) = {''2020'', ''2021''}
     \<and> (\<forall>(y, b)\<in>set yd. length (minTemps b) = (if y = ''2020'' then 366 else 365)
                         \<and> Undefined \<notin> set (minTemps b) \<and> Undefined \<notin> set (maxTemps b))"
proof -
  let ?dates = "[''2020-12-31T00:00+00:00'', ''2021-01-02T00:00+00:00'']"
  have h1: "length [Num 5, Num 1] = length ?dates" "length [Num 9, Null] = length ?dates"
    by simp_all
  have h2: "Undefined \<notin> set [Num 5, Num 1]" "Undefined \<notin> set [Num 9, Null]"
    by simp_all
  have h3: "\<forall>t\<in>set ?dates. \<exists>d. moment_utc t = Some d \<and> valid_moment d"
    by (simp add: moment_utc_examples valid_moment_examples)
  have yrs: "(\<lambda>t. moment_format_YYYY (moment_utc t)) ` set ?dates = {''2020'', ''2021''}"
    by (simp add: moment_format_YYYY_def moment_utc_examples format_YYYY_examples)
  have leap: "(\<exists>t\<in>set ?dates. moment_format_YYYY (moment_utc t) = y
                 \<and> moment_dayOfYear (moment_utc t) = Some 366) \<longleftrightarrow> y = ''2020''" for y
    by (auto simp: moment_format_YYYY_def moment_dayOfYear_def moment_utc_examples
        format_YYYY_examples dayOfYear_examples)
  from yearly_data_buckets [OF h1 h2 h3] obtain yd where
    "yearly_data moment_utc ?dates [Num 5, Num 1] [Num 9, Null] = Inr yd"
    "set (map fst yd) = {''2020'', ''2021''}"
    "\<forall>(y, b)\<in>set yd. length (minTemps b) = (if y = ''2020'' then 366 else 365)
         \<and> length (maxTemps b) = length (minTemps b)
         \<and> Undefined \<notin> set (minTemps b) \<and> Undefined \<notin> set (maxTemps b)"
    unfolding yrs leap by fastforce
  then show ?thesis by fastforce
qed




end
